theory Spec2Isabelle
  imports Main
begin

section \<open>Python string operations used by the vector sync\<close>

text \<open>
  Strings are lists of characters. The whitespace test is the ASCII part of Python's
  \<^verbatim>\<open>str.isspace\<close> (which is also what \<^verbatim>\<open>\s\<close> matches in a \<^verbatim>\<open>str\<close> pattern):
  tab, line feed, vertical tab, form feed, carriage return, the separators
  0x1C..0x1F and the space. Characters outside ASCII count as non-whitespace, and case
  conversion touches the ASCII letters only.
\<close>

definition is_space :: "char \<Rightarrow> bool" where
  "is_space c \<longleftrightarrow>
     c \<in> set [CHR 0x09, CHR 0x0A, CHR 0x0B, CHR 0x0C, CHR 0x0D,
              CHR 0x1C, CHR 0x1D, CHR 0x1E, CHR 0x1F, CHR 0x20]"

definition newline :: char where
  "newline = CHR 0x0A"

definition tab :: char where
  "tab = CHR 0x09"

definition lstrip :: "string \<Rightarrow> string" where
  "lstrip s = dropWhile is_space s"

definition rstrip :: "string \<Rightarrow> string" where
  "rstrip s = rev (dropWhile is_space (rev s))"

text \<open>\<^verbatim>\<open>s.strip()\<close>\<close>

definition strip :: "string \<Rightarrow> string" where
  "strip s = rstrip (lstrip s)"

text \<open>
  \<^verbatim>\<open>s.split(None, n)\<close>: at most \<open>n\<close> splits at whitespace runs; what is left after the
  last split loses its leading whitespace only.
\<close>

fun py_split_max :: "nat \<Rightarrow> string \<Rightarrow> string list" where
  "py_split_max 0 s = (if lstrip s = [] then [] else [lstrip s])"
| "py_split_max (Suc n) s =
     (if lstrip s = [] then []
      else takeWhile (\<lambda>c. \<not> is_space c) (lstrip s)
             # py_split_max n (dropWhile (\<lambda>c. \<not> is_space c) (lstrip s)))"

text \<open>\<^verbatim>\<open>s.split(d)\<close> for a one-character separator: never empty.\<close>

fun split_on :: "char \<Rightarrow> string \<Rightarrow> string list" where
  "split_on d [] = [[]]"
| "split_on d (c # cs) =
     (if c = d then [] # split_on d cs
      else (c # hd (split_on d cs)) # tl (split_on d cs))"

text \<open>
  \<^verbatim>\<open>s.split()\<close>: the maximal runs of non-whitespace characters. A string has no more
  runs than characters, so the bound is never reached.
\<close>

definition py_split :: "string \<Rightarrow> string list" where
  "py_split s = py_split_max (length s) s"

text \<open>\<^verbatim>\<open>needle in haystack\<close>\<close>

fun starts_with :: "string \<Rightarrow> string \<Rightarrow> bool" where
  "starts_with [] s = True"
| "starts_with (p # ps) [] = False"
| "starts_with (p # ps) (c # cs) = (p = c \<and> starts_with ps cs)"

fun contains :: "string \<Rightarrow> string \<Rightarrow> bool" where
  "contains needle [] = (needle = [])"
| "contains needle (c # cs) = (starts_with needle (c # cs) \<or> contains needle cs)"

definition lower_char :: "char \<Rightarrow> char" where
  "lower_char c =
     (case map_of (zip ''ABCDEFGHIJKLMNOPQRSTUVWXYZ'' ''abcdefghijklmnopqrstuvwxyz'') c of
        Some d \<Rightarrow> d
      | None \<Rightarrow> c)"

definition upper_char :: "char \<Rightarrow> char" where
  "upper_char c =
     (case map_of (zip ''abcdefghijklmnopqrstuvwxyz'' ''ABCDEFGHIJKLMNOPQRSTUVWXYZ'') c of
        Some d \<Rightarrow> d
      | None \<Rightarrow> c)"

text \<open>\<^verbatim>\<open>s.lower()\<close> and \<^verbatim>\<open>s.upper()\<close>\<close>

definition lower :: "string \<Rightarrow> string" where
  "lower s = map lower_char s"

definition upper :: "string \<Rightarrow> string" where
  "upper s = map upper_char s"

section \<open>Token Budgeter\<close>

text \<open>
  \<^verbatim>\<open>count_tokens\<close> (lines 127-131). The module's \<^verbatim>\<open>tokenizer\<close> is \<^verbatim>\<open>None\<close> until
  \<^verbatim>\<open>run_sync\<close> installs the tiktoken encoding. The encoding is an external library, so
  an installed tokenizer is the function from a text to the length of its encoding.
\<close>

type_synonym tokenizer = "string \<Rightarrow> nat"

definition count_tokens :: "tokenizer option \<Rightarrow> string \<Rightarrow> nat" where
  "count_tokens tok text =
     (case tok of None \<Rightarrow> length (py_split text) | Some enc \<Rightarrow> enc text)"

definition MAX_TOKENS :: int where
  "MAX_TOKENS = 8192"

text \<open>
  \<^verbatim>\<open>re.split(r'(?<=[.!?])\s+', section)\<close>: the text is cut at every maximal
  whitespace run that directly follows a full stop, exclamation mark or question mark.
  The flag says whether the previous character was such a mark.
\<close>

definition is_sentence_end :: "char \<Rightarrow> bool" where
  "is_sentence_end c \<longleftrightarrow> c = CHR ''.'' \<or> c = CHR ''!'' \<or> c = CHR ''?''"

function re_split_sentences :: "bool \<Rightarrow> string \<Rightarrow> string list" where
  "re_split_sentences after_mark [] = [[]]"
| "re_split_sentences after_mark (c # cs) =
     (if after_mark \<and> is_space c
      then [] # re_split_sentences False (dropWhile is_space cs)
      else (c # hd (re_split_sentences (is_sentence_end c) cs))
             # tl (re_split_sentences (is_sentence_end c) cs))"
  by pat_completeness auto
termination
  by (relation "measure (\<lambda>(a, s). length s)")
     (auto simp: length_dropWhile_le less_Suc_eq_le)

text \<open>
  \<^verbatim>\<open>re.findall(r'.{1,3000}(?:\s+|$)', chunk)\<close>. At a position the greedy
  \<^verbatim>\<open>.{1,w}\<close> takes up to \<open>w\<close> characters other than a line feed and gives them back
  one at a time until what follows is whitespace or the end of the text;
  \<open>cut_scan b k s\<close> is the length of that longest admissible run, with \<open>k\<close> characters
  taken already and \<open>b\<close> still allowed. A match also swallows the whitespace run after
  it. Where no run is admissible the search moves on by one character, and the
  character it leaves behind is in no match.
\<close>

fun cut_scan :: "nat \<Rightarrow> nat \<Rightarrow> string \<Rightarrow> nat option" where
  "cut_scan 0 k s = None"
| "cut_scan (Suc b) k [] = None"
| "cut_scan (Suc b) k (c # cs) =
     (if c = newline then None
      else (case cut_scan b (Suc k) cs of
              Some n \<Rightarrow> Some n
            | None \<Rightarrow> if cs = [] \<or> is_space (hd cs) then Some (Suc k) else None))"

lemma cut_scan_bounds: "cut_scan b k s = Some n \<Longrightarrow> k < n \<and> n \<le> k + length s"
proof (induction b k s arbitrary: n rule: cut_scan.induct)
  case (3 b k c cs)
  then show ?case
    by (fastforce split: if_splits option.splits)
qed simp_all

function findall_window :: "nat \<Rightarrow> string \<Rightarrow> string list" where
  "findall_window w s =
     (if s = [] then []
      else (case cut_scan w 0 s of
              None \<Rightarrow> findall_window w (tl s)
            | Some n \<Rightarrow>
                (take n s @ takeWhile is_space (drop n s))
                  # findall_window w (dropWhile is_space (drop n s))))"
  by pat_completeness auto
termination
proof (relation "measure (\<lambda>(w, s). length s)")
  show "wf (measure (\<lambda>(w, s). length s))" by simp
next
  fix w :: nat and s :: string
  assume "s \<noteq> []"
  then show "((w, tl s), (w, s)) \<in> measure (\<lambda>(w, s). length s)"
    by (cases s) simp_all
next
  fix w :: nat and s :: string and n :: nat
  assume "s \<noteq> []" and "cut_scan w 0 s = Some n"
  then have "0 < n" using cut_scan_bounds by blast
  have "length (dropWhile is_space (drop n s)) \<le> length (drop n s)"
    by (rule length_dropWhile_le)
  also have "\<dots> < length s" using \<open>0 < n\<close> \<open>s \<noteq> []\<close> by simp
  finally show "((w, dropWhile is_space (drop n s)), (w, s)) \<in> measure (\<lambda>(w, s). length s)"
    by simp
qed

declare findall_window.simps [simp del]

text \<open>\<^verbatim>\<open>[s.strip() for s in char_chunks if s.strip()]\<close> (lines 165-166).\<close>

definition hard_split :: "string \<Rightarrow> string list" where
  "hard_split chunk = filter (\<lambda>s. s \<noteq> []) (map strip (findall_window 3000 chunk))"

text \<open>
  The loop over the sentence parts (lines 148-155), on the pair of
  \<^verbatim>\<open>final_chunks\<close> and \<^verbatim>\<open>current_chunk\<close>.
\<close>

fun reassemble ::
  "tokenizer option \<Rightarrow> int \<Rightarrow> string list \<Rightarrow> string list \<times> string \<Rightarrow> string list \<times> string"
where
  "reassemble tok max_tokens [] st = st"
| "reassemble tok max_tokens (part # parts) (final_chunks, current_chunk) =
     (let test_chunk = current_chunk @ (if current_chunk \<noteq> [] then '' '' @ part else part)
      in if int (count_tokens tok test_chunk) \<le> max_tokens
         then reassemble tok max_tokens parts (final_chunks, test_chunk)
         else reassemble tok max_tokens parts
                (if current_chunk \<noteq> [] then final_chunks @ [strip current_chunk]
                 else final_chunks, part))"

text \<open>The second pass (lines 160-167) over everything collected so far.\<close>

definition really_final :: "tokenizer option \<Rightarrow> int \<Rightarrow> string list \<Rightarrow> string list" where
  "really_final tok max_tokens chunks =
     concat (map (\<lambda>chunk. if int (count_tokens tok chunk) \<le> max_tokens then [chunk]
                           else hard_split chunk) chunks)"

fun re_chunk_loop ::
  "tokenizer option \<Rightarrow> int \<Rightarrow> string list \<Rightarrow> string list \<Rightarrow> string list"
where
  "re_chunk_loop tok max_tokens [] final_chunks = final_chunks"
| "re_chunk_loop tok max_tokens (section # sections) final_chunks =
     (if strip section = [] then re_chunk_loop tok max_tokens sections final_chunks
      else if int (count_tokens tok (strip section)) \<le> max_tokens
      then re_chunk_loop tok max_tokens sections (final_chunks @ [strip section])
      else
        (case reassemble tok max_tokens (re_split_sentences False (strip section))
                (final_chunks, [])
         of (chunks, current_chunk) \<Rightarrow>
           re_chunk_loop tok max_tokens sections
             (really_final tok max_tokens
                (if strip current_chunk \<noteq> [] then chunks @ [strip current_chunk]
                 else chunks))))"

text \<open>\<^verbatim>\<open>re_chunk_if_oversize\<close> (lines 134-169).\<close>

definition re_chunk_if_oversize ::
  "tokenizer option \<Rightarrow> string list \<Rightarrow> int \<Rightarrow> string list"
where
  "re_chunk_if_oversize tok sections max_tokens = re_chunk_loop tok max_tokens sections []"

section \<open>Vector records, exceptions and the outside world\<close>

text \<open>
  A raised exception is a value. \<open>ClientError\<close> stands for whatever an external client
  (vector store, embedding service) raises; its argument is \<^verbatim>\<open>str(e)\<close>.
\<close>

datatype exn =
  RuntimeError string
| FileNotFoundError string
| IndexError string
| ClientError string

fun str_exn :: "exn \<Rightarrow> string" where
  "str_exn (RuntimeError m) = m"
| "str_exn (FileNotFoundError m) = m"
| "str_exn (IndexError m) = m"
| "str_exn (ClientError m) = m"

text \<open>
  A component of an embedding. No arithmetic is done on it: the code only asks whether
  it is NaN or infinite, so a finite value is tagged by an integer.
\<close>

datatype pyfloat = Finite int | NaN | PosInf | NegInf

text \<open>
  The metadata of a vector record as \<^verbatim>\<open>process_file\<close> builds it (lines 364-383);
  \<^verbatim>\<open>file_type\<close>, \<^verbatim>\<open>line_range\<close> and \<^verbatim>\<open>indexed_at\<close> are left out (they read the file
  system and the clock and no operation below looks at them).
\<close>

record metadata =
  md_repo_name :: string
  md_file_path :: string
  md_chunk_type :: string
  md_chunk_index :: nat
  md_chunk_id :: string
  md_content :: string
  md_embedded :: bool
  md_should_embed :: bool
  md_status :: string
  md_token_count :: nat
  md_commit_sha :: string

text \<open>
  An entry of a batch is a dictionary: each of its three keys may be absent, and
  \<open>entry_id\<close> is \<^verbatim>\<open>entry.get('id')\<close> when that is a \<^verbatim>\<open>str\<close>.
\<close>

record entry =
  entry_id :: "string option"
  entry_values :: "pyfloat list option"
  entry_metadata :: "metadata option"

text \<open>A line of the error journal (\<^verbatim>\<open>append_error\<close>, lines 489-500).\<close>

record error_record =
  er_file_path :: string
  er_operation :: string
  er_message :: string
  er_status :: "string option"

text \<open>The requests the vector store receives.\<close>

datatype store_call =
  DeleteByFilter string string
| DeleteAll
| Upsert "entry list"

datatype fs_kind = Absent | Directory | RegularFile

text \<open>
  Everything the run reads from outside: the file system, the external chunker, the
  tokenizer, the embedding service, the vector store (each request either returns,
  \<open>None\<close>, or raises with the given message), and whether a journal line can be written.
\<close>

record world =
  path_kind :: "string \<Rightarrow> fs_kind"
  cl100k :: "string \<Rightarrow> nat"
  chunker_chunk_file :: "string \<Rightarrow> string + string list"
  summary_text :: "string \<Rightarrow> string + string"
  csv_preview :: "string \<Rightarrow> string + string"
  embed_api :: "string \<Rightarrow> string + pyfloat list"
  uuid4 :: "string \<Rightarrow> nat \<Rightarrow> string"
  index_delete :: "string \<Rightarrow> string \<Rightarrow> string option"
  index_delete_all :: "string option"
  index_upsert :: "entry list \<Rightarrow> string option"
  journal_write_ok :: "error_record \<Rightarrow> bool"
  repo_name :: string
  commit_sha :: string
  client_setup :: "exn option"

definition DIMENSION :: nat where
  "DIMENSION = 1024"

definition BATCH_SIZE :: nat where
  "BATCH_SIZE = 10"

section \<open>Chunk Classifier\<close>

definition BINARY_EXTS :: "string list" where
  "BINARY_EXTS =
     [''.png'', ''.jpg'', ''.jpeg'', ''.gif'', ''.webp'', ''.bmp'', ''.tiff'', ''.ico'',
      ''.psd'', ''.pdf'', ''.zip'', ''.gz'', ''.tar'', ''.7z'', ''.mp3'', ''.mp4'', ''.mov'',
      ''.avi'', ''.wav'', ''.woff'', ''.woff2'', ''.ttf'', ''.eot'']"

definition SUMMARY_ONLY_BASENAMES :: "string list" where
  "SUMMARY_ONLY_BASENAMES =
     [''pnpm-lock.yaml'', ''yarn.lock'', ''package-lock.json'', ''npm-shrinkwrap.json'',
      ''cargo.lock'', ''poetry.lock'', ''pipfile.lock'', ''gemfile.lock'', ''composer.lock'']"

text \<open>
  \<^verbatim>\<open>Path(p).name\<close> and \<^verbatim>\<open>Path(p).suffix\<close>, for relative paths with \<^verbatim>\<open>/\<close> as git
  prints them.
\<close>

definition path_name :: "string \<Rightarrow> string" where
  "path_name p =
     rev (takeWhile (\<lambda>c. c \<noteq> CHR ''/'') (dropWhile (\<lambda>c. c = CHR ''/'') (rev p)))"

definition path_suffix :: "string \<Rightarrow> string" where
  "path_suffix p =
     (let name = path_name p;
          ext = rev (takeWhile (\<lambda>c. c \<noteq> CHR ''.'') (rev name))
      in if CHR ''.'' \<in> set name \<and> ext \<noteq> [] \<and> Suc (length ext) < length name
         then CHR ''.'' # ext else [])"

text \<open>
  \<^verbatim>\<open>chunk_as_summary\<close> (lines 215-239) and \<^verbatim>\<open>chunk_csv_tsv\<close> (lines 197-212). The
  summary text is formatted from the file's size and a preview; \<open>summary_text\<close> and
  \<open>csv_preview\<close> give that text, or the message of the exception raised while reading.
\<close>

definition chunk_as_summary :: "world \<Rightarrow> string \<Rightarrow> string list" where
  "chunk_as_summary w filepath =
     (case summary_text w filepath of
        Inr summary \<Rightarrow> re_chunk_if_oversize (Some (cl100k w)) [summary] MAX_TOKENS
      | Inl e \<Rightarrow> [''Error accessing '' @ filepath @ '': '' @ e])"

definition chunk_csv_tsv :: "world \<Rightarrow> string \<Rightarrow> string list" where
  "chunk_csv_tsv w filepath =
     (case csv_preview w filepath of
        Inr summary \<Rightarrow> re_chunk_if_oversize (Some (cl100k w)) [summary] MAX_TOKENS
      | Inl e \<Rightarrow> [''Error reading CSV '' @ filepath @ '': '' @ e])"

text \<open>\<^verbatim>\<open>dispatch_chunking\<close> (lines 242-277): chunks, \<^verbatim>\<open>should_embed\<close>, chunk type.\<close>

definition dispatch_chunking :: "world \<Rightarrow> string \<Rightarrow> string list \<times> bool \<times> string" where
  "dispatch_chunking w filepath =
     (if lower (path_name filepath) \<in> set SUMMARY_ONLY_BASENAMES
      then (chunk_as_summary w filepath, True, ''summary'')
      else if lower (path_suffix filepath) \<in> set BINARY_EXTS
      then (chunk_as_summary w filepath, True, ''summary'')
      else if lower (path_suffix filepath) \<in> set [''.csv'', ''.tsv'']
      then (chunk_csv_tsv w filepath, True, ''summary'')
      else (case chunker_chunk_file w filepath of
              Inr chunks \<Rightarrow>
                if chunks \<noteq> []
                then (re_chunk_if_oversize (Some (cl100k w)) chunks MAX_TOKENS, True, ''content'')
                else (chunk_as_summary w filepath, True, ''summary'')
            | Inl e \<Rightarrow> (chunk_as_summary w filepath, True, ''summary'')))"

section \<open>Embedding and store gateways\<close>

function str_nat :: "nat \<Rightarrow> string" where
  "str_nat n =
     (if n < 10 then [''0123456789'' ! n]
      else str_nat (n div 10) @ [''0123456789'' ! (n mod 10)])"
  by pat_completeness auto
termination
  by (relation "measure id") auto

declare str_nat.simps [simp del]

definition not_finite :: "pyfloat \<Rightarrow> bool" where
  "not_finite v \<longleftrightarrow> v = NaN \<or> v = PosInf \<or> v = NegInf"

text \<open>
  \<^verbatim>\<open>get_embedding\<close> (lines 280-299). The empty-text check is outside the
  \<^verbatim>\<open>try\<close>; every exception inside it is raised again as a \<^verbatim>\<open>RuntimeError\<close> with
  the prefix.
\<close>

definition get_embedding :: "world \<Rightarrow> string \<Rightarrow> exn + pyfloat list" where
  "get_embedding w text =
     (if text = [] \<or> strip text = [] then Inl (RuntimeError ''Empty text provided for embedding'')
      else (case embed_api w text of
              Inl e \<Rightarrow> Inl (RuntimeError (''Embedding failed: '' @ e))
            | Inr embedding \<Rightarrow>
                if embedding = []
                then Inl (RuntimeError ''Embedding failed: Received empty embedding from API'')
                else if length embedding \<noteq> DIMENSION
                then Inl (RuntimeError
                       (''Embedding failed: Unexpected embedding dimension: got ''
                          @ str_nat (length embedding) @ '', expected '' @ str_nat DIMENSION))
                else if \<exists>v \<in> set embedding. not_finite v
                then Inl (RuntimeError ''Embedding failed: Embedding contains NaN/inf values'')
                else Inr embedding))"

text \<open>
  The loop of \<^verbatim>\<open>process_file\<close> over \<^verbatim>\<open>enumerate(chunks)\<close> (lines 354-384); the first
  embedding that raises ends it.
\<close>

fun chunk_entries ::
  "world \<Rightarrow> string \<Rightarrow> string \<Rightarrow> bool \<Rightarrow> string \<Rightarrow> nat \<Rightarrow> string list \<Rightarrow> exn + entry list"
where
  "chunk_entries w filepath status should_embed chunk_type i [] = Inr []"
| "chunk_entries w filepath status should_embed chunk_type i (chunk # chunks) =
     (if chunk = [] \<or> strip chunk = []
      then chunk_entries w filepath status should_embed chunk_type (Suc i) chunks
      else
        (case (if should_embed \<and> int (count_tokens (Some (cl100k w)) chunk) \<le> MAX_TOKENS
               then get_embedding w chunk else Inr [])
         of Inl e \<Rightarrow> Inl e
          | Inr vector \<Rightarrow>
              (case chunk_entries w filepath status should_embed chunk_type (Suc i) chunks of
                 Inl e \<Rightarrow> Inl e
               | Inr rest \<Rightarrow>
                   Inr (\<lparr>entry_id = Some (uuid4 w filepath i),
                         entry_values = Some vector,
                         entry_metadata = Some
                           \<lparr>md_repo_name = repo_name w,
                            md_file_path = filepath,
                            md_chunk_type = chunk_type,
                            md_chunk_index = i,
                            md_chunk_id = uuid4 w filepath i,
                            md_content = chunk,
                            md_embedded = (vector \<noteq> []),
                            md_should_embed = should_embed,
                            md_status = status,
                            md_token_count = count_tokens (Some (cl100k w)) chunk,
                            md_commit_sha = commit_sha w\<rparr>\<rparr> # rest))))"

text \<open>\<^verbatim>\<open>process_file\<close> (lines 338-390); its handler prints and raises again.\<close>

definition process_file :: "world \<Rightarrow> string \<Rightarrow> string \<Rightarrow> exn + entry list" where
  "process_file w filepath status =
     (if path_kind w filepath = Absent then Inr []
      else (case dispatch_chunking w filepath of
              (chunks, should_embed, chunk_type) \<Rightarrow>
                chunk_entries w filepath status should_embed chunk_type 0 chunks))"

text \<open>
  \<^verbatim>\<open>safe_delete_vectors\<close> (lines 393-406): the exception it lets through, if any,
  and the request it sent.
\<close>

definition namespace_absent :: "string \<Rightarrow> bool" where
  "namespace_absent e \<longleftrightarrow>
     contains ''namespace not found'' (lower e)
       \<or> contains (''code'' @ [CHR 0x22] @ '':5'') (lower e)"

definition safe_delete_vectors :: "world \<Rightarrow> string \<Rightarrow> exn option \<times> store_call list" where
  "safe_delete_vectors w file_path =
     (case index_delete w (repo_name w) file_path of
        None \<Rightarrow> (None, [DeleteByFilter (repo_name w) file_path])
      | Some e \<Rightarrow>
          if namespace_absent e then (None, [DeleteByFilter (repo_name w) file_path])
          else (Some (ClientError e), [DeleteByFilter (repo_name w) file_path]))"

text \<open>\<^verbatim>\<open>safe_upsert_batch\<close> (lines 409-415).\<close>

definition empty_content_vector :: "entry \<Rightarrow> bool" where
  "empty_content_vector e \<longleftrightarrow>
     (case entry_metadata e of
        None \<Rightarrow> False
      | Some md \<Rightarrow>
          md_chunk_type md = ''content''
            \<and> (case entry_values e of None \<Rightarrow> True | Some v \<Rightarrow> v = []))"

definition safe_upsert_batch :: "world \<Rightarrow> entry list \<Rightarrow> (exn + nat) \<times> store_call list" where
  "safe_upsert_batch w batch =
     (case find empty_content_vector batch of
        Some e \<Rightarrow>
          (Inl (RuntimeError (''Attempted to upsert empty embedding: ''
                  @ (case entry_metadata e of None \<Rightarrow> ''None'' | Some md \<Rightarrow> md_file_path md))),
           [])
      | None \<Rightarrow>
          (case index_upsert w batch of
             None \<Rightarrow> (Inr (length batch), [Upsert batch])
           | Some e \<Rightarrow> (Inl (ClientError e), [Upsert batch])))"

section \<open>Sync Executor\<close>

text \<open>The accumulators of \<^verbatim>\<open>run_sync\<close> (lines 898-902), the journal and the store's log.\<close>

record sync_state =
  processed :: nat
  errors :: nat
  skipped :: nat
  failures :: "error_record list"
  deleted_files :: nat
  upserted_ids :: "string list"
  total_upserted :: nat
  journal :: "error_record list"
  calls :: "store_call list"

definition init_state :: sync_state where
  "init_state =
     \<lparr>processed = 0, errors = 0, skipped = 0, failures = [], deleted_files = 0,
      upserted_ids = [], total_upserted = 0, journal = [], calls = []\<rparr>"

text \<open>
  \<^verbatim>\<open>append_error\<close> (lines 489-500): the status is written only when it is not empty,
  and a failure to write is swallowed.
\<close>

definition journal_line :: "string \<Rightarrow> string \<Rightarrow> string \<Rightarrow> string \<Rightarrow> error_record" where
  "journal_line file_path operation message status =
     \<lparr>er_file_path = file_path, er_operation = operation, er_message = message,
      er_status = (if status \<noteq> [] then Some status else None)\<rparr>"

definition append_error ::
  "world \<Rightarrow> string \<Rightarrow> string \<Rightarrow> string \<Rightarrow> string \<Rightarrow> sync_state \<Rightarrow> sync_state"
where
  "append_error w file_path operation message status s =
     (if journal_write_ok w (journal_line file_path operation message status)
      then s\<lparr>journal := journal s @ [journal_line file_path operation message status]\<rparr>
      else s)"

text \<open>An element of \<^verbatim>\<open>failures\<close>: the status is always there.\<close>

definition failure :: "string \<Rightarrow> string \<Rightarrow> string \<Rightarrow> string \<Rightarrow> error_record" where
  "failure file_path operation message status =
     \<lparr>er_file_path = file_path, er_operation = operation, er_message = message,
      er_status = Some status\<rparr>"

text \<open>The handlers of lines 940-943 and 946-949.\<close>

definition record_failure ::
  "world \<Rightarrow> string \<Rightarrow> string \<Rightarrow> string \<Rightarrow> exn \<Rightarrow> sync_state \<Rightarrow> sync_state"
where
  "record_failure w operation status filepath e s =
     append_error w filepath operation (str_exn e) status
       (s\<lparr>errors := errors s + 1,
          failures := failures s @ [failure filepath operation (str_exn e) status]\<rparr>)"

text \<open>\<^verbatim>\<open>chunks[i:i + BATCH_SIZE]\<close> for \<^verbatim>\<open>i\<close> in \<^verbatim>\<open>range(0, len(chunks), BATCH_SIZE)\<close>.\<close>

function batches :: "nat \<Rightarrow> 'a list \<Rightarrow> 'a list list" where
  "batches n xs = (if n = 0 \<or> xs = [] then [] else take n xs # batches n (drop n xs))"
  by pat_completeness auto
termination
  by (relation "measure (\<lambda>(n, xs). length xs)") auto

declare batches.simps [simp del]

text \<open>The loop over the batches of one file (lines 931-943).\<close>

fun upsert_batches ::
  "world \<Rightarrow> string \<Rightarrow> string \<Rightarrow> entry list list \<Rightarrow> sync_state \<Rightarrow> sync_state"
where
  "upsert_batches w status filepath [] s = s"
| "upsert_batches w status filepath (batch # rest) s =
     (case safe_upsert_batch w batch of
        (Inr upserted_count, cs) \<Rightarrow>
          upsert_batches w status filepath rest
            (s\<lparr>calls := calls s @ cs,
               total_upserted := total_upserted s + upserted_count,
               upserted_ids := upserted_ids s @ List.map_filter entry_id batch\<rparr>)
      | (Inl e, cs) \<Rightarrow>
          upsert_batches w status filepath rest
            (record_failure w ''upsert'' status filepath e (s\<lparr>calls := calls s @ cs\<rparr>)))"

text \<open>The body of the loop over \<^verbatim>\<open>files_to_process\<close> (lines 905-949).\<close>

definition process_record :: "world \<Rightarrow> bool \<Rightarrow> sync_state \<Rightarrow> string \<times> string \<Rightarrow> sync_state" where
  "process_record w wipe_first s rec =
     (case rec of (status, filepath) \<Rightarrow>
        if path_kind w filepath = Directory
        then append_error w filepath ''skip-dir'' ''Path is a directory; skipping'' status
               (s\<lparr>skipped := skipped s + 1\<rparr>)
        else if status = ''D''
        then (case safe_delete_vectors w filepath of
                (None, cs) \<Rightarrow> s\<lparr>calls := calls s @ cs, deleted_files := deleted_files s + 1\<rparr>
              | (Some e, cs) \<Rightarrow>
                  record_failure w ''process'' status filepath e (s\<lparr>calls := calls s @ cs\<rparr>))
        else if path_kind w filepath = Absent
        then record_failure w ''process'' status filepath
               (FileNotFoundError
                  (''File marked as '' @ status @ '' but not found: '' @ filepath))
               (s\<lparr>skipped := skipped s + 1\<rparr>)
        else
          (case (if (status = ''A'' \<or> status = ''M'') \<and> \<not> wipe_first
                 then (case safe_delete_vectors w filepath of
                         (None, cs) \<Rightarrow>
                           Inr (s\<lparr>calls := calls s @ cs, deleted_files := deleted_files s + 1\<rparr>)
                       | (Some e, cs) \<Rightarrow> Inl (e, s\<lparr>calls := calls s @ cs\<rparr>))
                 else Inr s)
           of Inl (e, s1) \<Rightarrow> record_failure w ''process'' status filepath e s1
            | Inr s1 \<Rightarrow>
                (case process_file w filepath status of
                   Inl e \<Rightarrow> record_failure w ''process'' status filepath e s1
                 | Inr chunks \<Rightarrow>
                     (let s2 = upsert_batches w status filepath (batches BATCH_SIZE chunks) s1
                      in s2\<lparr>processed := processed s2 + 1\<rparr>))))"

definition run_loop :: "world \<Rightarrow> bool \<Rightarrow> sync_state \<Rightarrow> (string \<times> string) list \<Rightarrow> sync_state" where
  "run_loop w wipe_first s files_to_process = foldl (process_record w wipe_first) s files_to_process"

text \<open>The failures that the loop over the batches of one file records.\<close>

definition upsert_failures :: "world \<Rightarrow> string \<Rightarrow> string \<Rightarrow> entry list list \<Rightarrow> error_record list" where
  "upsert_failures w st fp bs =
     concat (map (\<lambda>b. case fst (safe_upsert_batch w b) of
                         Inl e \<Rightarrow> [failure fp ''upsert'' (str_exn e) st]
                       | Inr n \<Rightarrow> []) bs)"

text \<open>
  What one record adds to \<^verbatim>\<open>failures\<close> and to the store's log when it is processed
  on its own, from the initial state.
\<close>

definition record_failures :: "world \<Rightarrow> bool \<Rightarrow> string \<times> string \<Rightarrow> error_record list" where
  "record_failures w wipe_first rec = failures (process_record w wipe_first init_state rec)"

definition record_calls :: "world \<Rightarrow> bool \<Rightarrow> string \<times> string \<Rightarrow> store_call list" where
  "record_calls w wipe_first rec = calls (process_record w wipe_first init_state rec)"

text \<open>An element of \<^verbatim>\<open>failures\<close> as \<^verbatim>\<open>append_error\<close> writes it: no empty status.\<close>

definition journal_form :: "error_record \<Rightarrow> error_record" where
  "journal_form f = f\<lparr>er_status := (if er_status f = Some [] then None else er_status f)\<rparr>"

text \<open>
  How \<^verbatim>\<open>run_sync\<close> ends: an exception before the loop, \<^verbatim>\<open>SystemExit(1)\<close> after it, or
  the returned dictionary (its \<^verbatim>\<open>upserted_ids\<close>).
\<close>

datatype run_result = Raised exn | SystemExit nat | Returned "string list"

text \<open>The wipe of lines 886-896.\<close>

definition wipe_namespace :: "world \<Rightarrow> exn option" where
  "wipe_namespace w =
     (case index_delete_all w of
        None \<Rightarrow> None
      | Some e \<Rightarrow>
          if contains ''namespace not found'' (lower e) then None
          else Some (RuntimeError (''Failed to wipe namespace: '' @ e)))"

text \<open>
  \<^verbatim>\<open>run_sync\<close> (lines 796-966). Creating the clients and the index (lines 806-878) is
  \<open>client_setup\<close>: it either raises or leaves the tokenizer installed.
\<close>

definition run_sync :: "world \<Rightarrow> (string \<times> string) list \<Rightarrow> bool \<Rightarrow> run_result \<times> sync_state" where
  "run_sync w files_to_process wipe_first =
     (case client_setup w of
        Some e \<Rightarrow> (Raised e, init_state)
      | None \<Rightarrow>
          (case (if wipe_first then wipe_namespace w else None) of
             Some e \<Rightarrow> (Raised e, init_state\<lparr>calls := [DeleteAll]\<rparr>)
           | None \<Rightarrow>
               (let s = run_loop w wipe_first
                          (init_state\<lparr>calls := (if wipe_first then [DeleteAll] else [])\<rparr>)
                          files_to_process
                in (if failures s \<noteq> [] then SystemExit 1 else Returned (upserted_ids s), s))))"

section \<open>Change Set Resolver\<close>

text \<open>
  A line of \<^verbatim>\<open>git diff --name-status\<close> (lines 638-648 for the superproject, lines
  681-690 inside a submodule, where \<open>prefix\<close> is the submodule path and a slash).
  \<^verbatim>\<open>str.split\<close> never returns an empty list, so the test \<^verbatim>\<open>if not cols\<close> never fires.
\<close>

definition name_status_records :: "string \<Rightarrow> string \<Rightarrow> (string \<times> string) list" where
  "name_status_records prefix line =
     (case split_on tab (strip line) of
        [] \<Rightarrow> []
      | st # paths \<Rightarrow>
          if starts_with ''R'' st \<and> 2 \<le> length paths
          then [(''D'', prefix @ paths ! 0), (''M'', prefix @ paths ! 1)]
          else if 1 \<le> length paths then [(st, prefix @ paths ! 0)]
          else [])"

text \<open>
  What the resolver does to the outside, in order: the git commands it runs, the files
  it reads and the journal lines it tries to append.
\<close>

datatype effect =
  RunGit "string list"
| ReadFile string
| ReadGithubEvent
| AppendJournal string error_record

text \<open>A value that \<^verbatim>\<open>json.loads\<close> returns.\<close>

datatype pyval =
  PNone
| PBool bool
| PNum int
| PStr string
| PList "pyval list"
| PDict "(string \<times> pyval) list"

fun truthy :: "pyval \<Rightarrow> bool" where
  "truthy PNone = False"
| "truthy (PBool b) = b"
| "truthy (PNum n) = (n \<noteq> 0)"
| "truthy (PStr s) = (s \<noteq> [])"
| "truthy (PList xs) = (xs \<noteq> [])"
| "truthy (PDict kvs) = (kvs \<noteq> [])"

text \<open>\<^verbatim>\<open>obj.get(key)\<close>\<close>

definition dict_get :: "(string \<times> pyval) list \<Rightarrow> string \<Rightarrow> pyval" where
  "dict_get obj key = (case map_of obj key of None \<Rightarrow> PNone | Some v \<Rightarrow> v)"

text \<open>
  What the command line and the repository give the resolver: the two credentials, the
  content of a file as its lines (\<open>None\<close> when the file does not exist),
  \<^verbatim>\<open>json.loads\<close> (\<open>None\<close> when it raises), and the output lines of the git commands;
  \<open>sorted_submodules\<close> is \<^verbatim>\<open>sorted(set(_get_submodule_paths(repo_root)))\<close>,
  \<open>git_submodule_changes\<close> is \<^verbatim>\<open>_parse_submodule_short\<close> of the submodule diff and
  \<open>github_commit_range\<close> is \<^verbatim>\<open>detect_github_commit_range()\<close>.
\<close>

record host =
  PINECONE_API_KEY :: "string option"
  VOYAGE_API_KEY :: "string option"
  read_lines :: "string \<Rightarrow> string list option"
  json_loads :: "string \<Rightarrow> pyval option"
  is_dir :: "string \<Rightarrow> bool"
  sorted_submodules :: "string list"
  git_ls_files :: "string option \<Rightarrow> exn + string list"
  git_diff_name_status :: "string \<Rightarrow> string \<Rightarrow> exn + string list"
  git_submodule_changes :: "string \<Rightarrow> string \<Rightarrow> exn + (string \<times> string \<times> string) list"
  git_ls_tree :: "string \<Rightarrow> string \<Rightarrow> exn + string list"
  git_diff_submodule :: "string \<Rightarrow> string \<Rightarrow> string \<Rightarrow> exn + string list"
  github_commit_range :: "exn + string \<times> string"

text \<open>The parsed command line (\<^verbatim>\<open>parse_args\<close>, lines 466-486).\<close>

record args =
  changed_files :: "string option"
  files :: "string list option"
  retry_errors :: "string option"
  errors_out :: string
  from_commit :: "string option"
  to_commit :: string
  repo_root :: string
  reindex_all :: bool
  skip_on_missing_keys :: bool

text \<open>Truth of an optional string and of an optional list, as \<^verbatim>\<open>if x:\<close> reads them.\<close>

definition given :: "'a list option \<Rightarrow> bool" where
  "given x \<longleftrightarrow> (case x of None \<Rightarrow> False | Some v \<Rightarrow> v \<noteq> [])"

definition slashes :: "string \<Rightarrow> string" where
  "slashes s = map (\<lambda>c. if c = CHR 0x5C then CHR ''/'' else c) s"

text \<open>Duplicates dropped, the first occurrence kept.\<close>

definition dedup :: "'a list \<Rightarrow> 'a list" where
  "dedup xs = rev (remdups (rev xs))"

text \<open>\<^verbatim>\<open>compute_reindex_all_files\<close> (lines 586-631).\<close>

definition submodule_files :: "host \<Rightarrow> string \<Rightarrow> string \<Rightarrow> string list \<times> effect list" where
  "submodule_files h errors_path sub_path =
     (if \<not> is_dir h sub_path
      then ([], [AppendJournal errors_path
                   (journal_line sub_path ''ls-files-submodule''
                      ''Submodule path not found on disk'' [])])
      else (case git_ls_files h (Some sub_path) of
              Inl e \<Rightarrow>
                ([], [RunGit [''-C'', sub_path, ''ls-files''],
                      AppendJournal errors_path
                        (journal_line sub_path ''ls-files-submodule'' (str_exn e) [])])
            | Inr out \<Rightarrow>
                (map (\<lambda>fp. slashes (sub_path @ ''/'' @ strip fp))
                     (filter (\<lambda>fp. strip fp \<noteq> []) out),
                 [RunGit [''-C'', sub_path, ''ls-files'']])))"

definition compute_reindex_all_files ::
  "host \<Rightarrow> string \<Rightarrow> (exn + (string \<times> string) list) \<times> effect list"
where
  "compute_reindex_all_files h errors_path =
     (case git_ls_files h None of
        Inl e \<Rightarrow> (Inl e, [ReadFile ''.gitmodules'', RunGit [''ls-files'']])
      | Inr super_out \<Rightarrow>
          (let own = map (\<lambda>fp. slashes (strip fp))
                       (filter (\<lambda>fp. strip fp \<noteq> [] \<and> strip fp \<notin> set (sorted_submodules h))
                          super_out);
               subs = map (submodule_files h errors_path) (sorted_submodules h)
           in (Inr (map (\<lambda>fp. (''A'', fp)) (dedup (own @ concat (map fst subs)))),
               [ReadFile ''.gitmodules'', RunGit [''ls-files'']] @ concat (map snd subs))))"

text \<open>\<^verbatim>\<open>compute_changes_from_git\<close> (lines 634-694).\<close>

definition all_zero :: "string \<Rightarrow> bool" where
  "all_zero sha \<longleftrightarrow> sha \<noteq> [] \<and> (\<forall>c \<in> set sha. c = CHR ''0'')"

definition submodule_records ::
  "host \<Rightarrow> string \<times> string \<times> string \<Rightarrow> (string \<times> string) list \<times> effect list"
where
  "submodule_records h sub =
     (case sub of (sub_path, oldsha, newsha) \<Rightarrow>
        (case (if all_zero oldsha
               then map_sum id (\<lambda>out. map (\<lambda>f. (''A'', sub_path @ ''/'' @ f))
                                          (filter (\<lambda>f. strip f \<noteq> []) out))
                      (git_ls_tree h sub_path newsha)
               else if all_zero newsha
               then map_sum id (\<lambda>out. map (\<lambda>f. (''D'', sub_path @ ''/'' @ f))
                                          (filter (\<lambda>f. strip f \<noteq> []) out))
                      (git_ls_tree h sub_path oldsha)
               else map_sum id (\<lambda>out. concat (map (name_status_records (sub_path @ ''/'')) out))
                      (git_diff_submodule h sub_path oldsha newsha))
         of Inr recs \<Rightarrow> (recs, [RunGit [''submodule'', sub_path, oldsha, newsha]])
          | Inl e \<Rightarrow>
              ([], [RunGit [''submodule'', sub_path, oldsha, newsha],
                    AppendJournal ''chat/.vector_sync_errors.jsonl''
                      (journal_line sub_path ''diff-submodule'' (str_exn e) [])])))"

definition compute_changes_from_git ::
  "host \<Rightarrow> string \<Rightarrow> string \<Rightarrow> (exn + (string \<times> string) list) \<times> effect list"
where
  "compute_changes_from_git h from_rev to_rev =
     (case git_diff_name_status h from_rev to_rev of
        Inl e \<Rightarrow> (Inl e, [RunGit [''diff'', ''--name-status'', from_rev, to_rev]])
      | Inr super_out \<Rightarrow>
          (case git_submodule_changes h from_rev to_rev of
             Inl e \<Rightarrow>
               (Inl e, [RunGit [''diff'', ''--name-status'', from_rev, to_rev],
                        RunGit [''diff'', ''--submodule=short'', from_rev, to_rev]])
           | Inr subs \<Rightarrow>
               (Inr (concat (map (name_status_records []) super_out)
                       @ concat (map (\<lambda>sub. fst (submodule_records h sub)) subs)),
                [RunGit [''diff'', ''--name-status'', from_rev, to_rev],
                 RunGit [''diff'', ''--submodule=short'', from_rev, to_rev]]
                  @ concat (map (\<lambda>sub. snd (submodule_records h sub)) subs))))"

text \<open>\<^verbatim>\<open>parse_token\<close> (lines 729-736) and the loop over \<^verbatim>\<open>args.files\<close>.\<close>

definition parse_token :: "string \<Rightarrow> exn + string \<times> string" where
  "parse_token tok =
     (if CHR '':'' \<in> set tok
      then (let st = upper (strip (takeWhile (\<lambda>c. c \<noteq> CHR '':'') tok));
                path = tl (dropWhile (\<lambda>c. c \<noteq> CHR '':'') tok)
            in if st \<in> set [''A'', ''M'', ''D''] then Inr (st, path)
               else Inl (RuntimeError (''Invalid status prefix in --files token: '' @ tok)))
      else Inr (''M'', tok))"

fun parse_tokens :: "string list \<Rightarrow> exn + (string \<times> string) list" where
  "parse_tokens [] = Inr []"
| "parse_tokens (tok # toks) =
     (case parse_token tok of
        Inl e \<Rightarrow> Inl e
      | Inr r \<Rightarrow> (case parse_tokens toks of Inl e \<Rightarrow> Inl e | Inr rs \<Rightarrow> Inr (r # rs)))"

text \<open>
  A line of the journal in replay mode (lines 744-753). Every exception is caught and
  the line skipped: \<^verbatim>\<open>json.loads\<close> raising, a value with no \<^verbatim>\<open>get\<close> (anything but
  an object) and a status with no \<^verbatim>\<open>upper\<close> (anything true but a string).
\<close>

definition retry_line :: "(string \<Rightarrow> pyval option) \<Rightarrow> string \<Rightarrow> (string \<times> pyval) list" where
  "retry_line loads line =
     (case loads line of
        Some (PDict obj) \<Rightarrow>
          (case (if truthy (dict_get obj ''status'') then dict_get obj ''status'' else PStr ''M'') of
             PStr s \<Rightarrow>
               (let st = (if upper s \<in> set [''A'', ''M'', ''D''] then upper s else ''M'')
                in if truthy (dict_get obj ''file_path'')
                   then [(st, dict_get obj ''file_path'')] else [])
           | _ \<Rightarrow> [])
      | _ \<Rightarrow> [])"

text \<open>
  A line of a changed-files listing (lines 775-789). The listing's lines are stripped and
  not empty, so \<^verbatim>\<open>parts[0]\<close> is there; on a blank line it would raise.
\<close>

definition changed_line :: "string \<Rightarrow> exn + (string \<times> string) list" where
  "changed_line line =
     (case py_split_max 2 line of
        [] \<Rightarrow> Inl (IndexError ''list index out of range'')
      | status # rest \<Rightarrow>
          if starts_with ''R'' status
          then (case rest of
                  old_fp # new_fp # others \<Rightarrow> Inr [(''D'', old_fp), (''M'', new_fp)]
                | _ \<Rightarrow> Inl (RuntimeError (''Malformed rename line: '' @ line)))
          else (case rest of
                  fp # others \<Rightarrow> if fp \<noteq> [] then Inr [(status, fp)] else Inr []
                | [] \<Rightarrow> Inr []))"

fun changed_lines :: "string list \<Rightarrow> exn + (string \<times> string) list" where
  "changed_lines [] = Inr []"
| "changed_lines (line # lines) =
     (case changed_line line of
        Inl e \<Rightarrow> Inl e
      | Inr rs \<Rightarrow> (case changed_lines lines of Inl e \<Rightarrow> Inl e | Inr rest \<Rightarrow> Inr (rs @ rest)))"

text \<open>\<^verbatim>\<open>[ln.strip() for ln in f.readlines() if ln.strip()]\<close>\<close>

definition changed_files_records :: "string list \<Rightarrow> exn + (string \<times> string) list" where
  "changed_files_records file_lines =
     changed_lines (filter (\<lambda>ln. ln \<noteq> []) (map strip file_lines))"

text \<open>
  How \<^verbatim>\<open>main_entry\<close> ends: an exception, \<^verbatim>\<open>sys.exit\<close>, or the call of \<^verbatim>\<open>run_sync\<close>
  with the resolved records and \<^verbatim>\<open>wipe_first\<close>. The path of a record is a \<^verbatim>\<open>str\<close>
  in every mode but the replay of a journal, where it is whatever value the line gives
  for \<^verbatim>\<open>file_path\<close>.
\<close>

datatype main_outcome = Fatal exn | Exit nat | RunSync "(string \<times> pyval) list" bool

definition str_paths :: "(string \<times> string) list \<Rightarrow> (string \<times> pyval) list" where
  "str_paths recs = map (\<lambda>(st, fp). (st, PStr fp)) recs"

definition join_comma :: "string list \<Rightarrow> string" where
  "join_comma xs = (case xs of [] \<Rightarrow> [] | x # ys \<Rightarrow> x @ concat (map (\<lambda>y. '', '' @ y) ys))"

definition missing_keys :: "host \<Rightarrow> string list" where
  "missing_keys h =
     (if given (PINECONE_API_KEY h) then [] else [''PINECONE_API_KEY''])
       @ (if given (VOYAGE_API_KEY h) then [] else [''VOYAGE_API_KEY''])"

text \<open>The last branch of \<^verbatim>\<open>main_entry\<close> (lines 756-791): a commit range or a listing.\<close>

definition range_or_listing :: "host \<Rightarrow> args \<Rightarrow> main_outcome \<times> effect list" where
  "range_or_listing h a =
     (case (if \<not> given (from_commit a) \<and> \<not> given (changed_files a)
            then (case github_commit_range h of
                    Inl e \<Rightarrow> Inl e
                  | Inr (base, head) \<Rightarrow> Inr (base, head, [ReadGithubEvent]))
            else Inr (case from_commit a of None \<Rightarrow> [] | Some r \<Rightarrow> r,
                      if to_commit a \<noteq> [] then to_commit a else ''HEAD'', []))
      of Inl e \<Rightarrow> (Fatal e, [ReadGithubEvent])
       | Inr (from_rev, to_rev, eff) \<Rightarrow>
           if from_rev \<noteq> []
           then (case compute_changes_from_git h from_rev to_rev of
                   (Inl e, eff') \<Rightarrow> (Fatal e, eff @ eff')
                 | (Inr changes, eff') \<Rightarrow>
                     (RunSync (str_paths (filter (\<lambda>(st, fp). \<not> starts_with ''R'' st) changes))
                        (reindex_all a),
                      eff @ eff'))
           else if given (changed_files a)
           then (case read_lines h (the (changed_files a)) of
                   None \<Rightarrow>
                     (Fatal (FileNotFoundError (the (changed_files a))),
                      eff @ [ReadFile (the (changed_files a))])
                 | Some file_lines \<Rightarrow>
                     (case changed_files_records file_lines of
                        Inl e \<Rightarrow> (Fatal e, eff @ [ReadFile (the (changed_files a))])
                      | Inr recs \<Rightarrow>
                          (RunSync (str_paths recs) (reindex_all a),
                           eff @ [ReadFile (the (changed_files a))])))
           else (Fatal (RuntimeError
                   ''Usage: provide one of: --files, --retry-errors, --from-commit, --reindex-all, or changed_files path''),
                 eff))"

text \<open>\<^verbatim>\<open>main_entry\<close> (lines 697-793).\<close>

definition main_entry :: "host \<Rightarrow> args \<Rightarrow> main_outcome \<times> effect list" where
  "main_entry h a =
     (if missing_keys h \<noteq> []
      then (if skip_on_missing_keys a then (Exit 0, [])
            else (Fatal (RuntimeError
                    (''Missing required API keys: '' @ join_comma (missing_keys h))), []))
      else if reindex_all a \<and> (given (files a) \<or> given (retry_errors a) \<or> given (changed_files a))
      then (Fatal (RuntimeError
              ''--reindex-all cannot be combined with --files, --retry-errors, or changed_files''),
            [])
      else if reindex_all a
      then (case compute_reindex_all_files h (errors_out a) of
              (Inl e, eff) \<Rightarrow> (Fatal e, eff)
            | (Inr recs, eff) \<Rightarrow>
                if recs = []
                then (Fatal (RuntimeError
                        ''No tracked files found to index. Make sure the superproject is a git repo and submodules are checked out.''),
                      eff)
                else (RunSync (str_paths recs) True, eff))
      else if given (files a)
      then (case parse_tokens (the (files a)) of
              Inl e \<Rightarrow> (Fatal e, [])
            | Inr recs \<Rightarrow> (RunSync (str_paths recs) (reindex_all a), []))
      else if given (retry_errors a)
      then (case read_lines h (the (retry_errors a)) of
              None \<Rightarrow>
                (Fatal (RuntimeError (''Errors file not found: '' @ the (retry_errors a))),
                 [ReadFile (the (retry_errors a))])
            | Some journal_lines \<Rightarrow>
                (RunSync (concat (map (retry_line (json_loads h)) journal_lines)) (reindex_all a),
                 [ReadFile (the (retry_errors a))]))
      else range_or_listing h a)"

section \<open>An example run\<close>

text \<open>
  A small world for trying the definitions: three files, of which the second cannot be
  embedded, a directory \<^verbatim>\<open>sub\<close>, nothing else on disk, and a store that answers
  "Namespace not found" when asked to delete the vectors of \<^verbatim>\<open>gone.py\<close>.
\<close>

definition demo_vector :: "pyfloat list" where
  "demo_vector = replicate 1024 (Finite 0)"

definition demo_world :: world where
  "demo_world =
     \<lparr>path_kind = (\<lambda>p. if p \<in> set [''one.py'', ''two.py'', ''three.py''] then RegularFile
                       else if p = ''sub'' then Directory else Absent),
      cl100k = length,
      chunker_chunk_file = (\<lambda>p. Inr [''text of '' @ p]),
      summary_text = (\<lambda>p. Inr (''summary of '' @ p)),
      csv_preview = (\<lambda>p. Inr (''preview of '' @ p)),
      embed_api = (\<lambda>t. if t = ''text of two.py'' then Inl ''rate limit'' else Inr demo_vector),
      uuid4 = (\<lambda>p i. ''id-'' @ p),
      index_delete = (\<lambda>r p. if p = ''gone.py'' then Some ''Namespace not found'' else None),
      index_delete_all = None,
      index_upsert = (\<lambda>b. None),
      journal_write_ok = (\<lambda>r. True),
      repo_name = ''webroot'',
      commit_sha = ''abc1234'',
      client_setup = None\<rparr>"

definition bad_batch :: "entry list" where
  "bad_batch =
     [\<lparr>entry_id = Some ''id-0'', entry_values = Some [],
       entry_metadata = Some
         \<lparr>md_repo_name = ''webroot'', md_file_path = ''big.json'', md_chunk_type = ''content'',
          md_chunk_index = 0, md_chunk_id = ''id-0'', md_content = ''x'', md_embedded = False,
          md_should_embed = True, md_status = ''M'', md_token_count = 9000,
          md_commit_sha = ''abc1234''\<rparr>\<rparr>]"

definition good_batch :: "entry list" where
  "good_batch =
     [\<lparr>entry_id = Some ''id-1'', entry_values = Some demo_vector,
       entry_metadata = Some
         \<lparr>md_repo_name = ''webroot'', md_file_path = ''one.py'', md_chunk_type = ''content'',
          md_chunk_index = 0, md_chunk_id = ''id-1'', md_content = ''x'', md_embedded = True,
          md_should_embed = True, md_status = ''M'', md_token_count = 1,
          md_commit_sha = ''abc1234''\<rparr>\<rparr>]"

text \<open>
  A repository for trying the resolver: one renamed file in the superproject and one in
  the submodule \<^verbatim>\<open>team\<close>, a changed-files listing with the same rename, and a journal
  of four lines (named, not spelled out; \<open>json_loads\<close> gives their values, and the fourth
  does not parse).
\<close>

definition rename_line :: string where
  "rename_line = ''R100'' @ tab # ''old.md'' @ tab # ''new.md''"

definition demo_host :: host where
  "demo_host =
     \<lparr>PINECONE_API_KEY = Some ''pinecone-key'',
      VOYAGE_API_KEY = Some ''voyage-key'',
      read_lines = (\<lambda>p. if p = ''changed_files.txt'' then Some [rename_line @ [newline]]
                        else if p = ''errors.jsonl''
                        then Some [''line 1'', ''line 2'', ''line 3'', ''line 4'']
                        else None),
      json_loads = (\<lambda>l.
        if l = ''line 1'' then Some (PDict [(''file_path'', PStr ''a.py''), (''status'', PStr ''d'')])
        else if l = ''line 2'' then Some (PDict [(''file_path'', PStr ''b.py''), (''status'', PNum 5)])
        else if l = ''line 3'' then Some (PDict [(''file_path'', PStr ''c.py''), (''status'', PStr ''R100'')])
        else None),
      is_dir = (\<lambda>p. True),
      sorted_submodules = [''team''],
      git_ls_files = (\<lambda>sub. case sub of None \<Rightarrow> Inr [''a.py'', ''team'']
                                       | Some p \<Rightarrow> Inr [''src/x.rs'']),
      git_diff_name_status = (\<lambda>from_rev to_rev. Inr [rename_line]),
      git_submodule_changes = (\<lambda>from_rev to_rev. Inr [(''team'', ''1111111'', ''2222222'')]),
      git_ls_tree = (\<lambda>sub sha. Inr []),
      git_diff_submodule = (\<lambda>sub oldsha newsha. Inr [rename_line]),
      github_commit_range = Inl (RuntimeError ''GITHUB_EVENT_PATH not set'')\<rparr>"

definition no_args :: args where
  "no_args =
     \<lparr>changed_files = None, files = None, retry_errors = None,
      errors_out = ''chat/.vector_sync_errors.jsonl'', from_commit = None,
      to_commit = ''HEAD'', repo_root = ''.'', reindex_all = False,
      skip_on_missing_keys = False\<rparr>"

section \<open>Properties of the Token Budgeter\<close>

lemma space_newline: "is_space newline"
  by (simp add: is_space_def newline_def)

lemma findall_window_Nil: "findall_window w [] = []"
  by (subst findall_window.simps) simp

lemma cut_scan_whole:
  "s \<noteq> [] \<Longrightarrow> newline \<notin> set s \<Longrightarrow> length s \<le> b \<Longrightarrow> cut_scan b k s = Some (k + length s)"
proof (induction s arbitrary: b k)
  case Nil
  then show ?case by simp
next
  case (Cons c cs)
  then obtain b' where b: "b = Suc b'" by (cases b) auto
  show ?case
  proof (cases "cs = []")
    case True
    then show ?thesis using Cons.prems b by (cases b') auto
  next
    case False
    then have "cut_scan b' (Suc k) cs = Some (Suc k + length cs)"
      using Cons b by auto
    then show ?thesis using Cons.prems b by auto
  qed
qed

lemma findall_window_whole:
  assumes "s \<noteq> []" "newline \<notin> set s" "length s \<le> w"
  shows "findall_window w s = [s]"
proof -
  have "cut_scan w 0 s = Some (length s)"
    using cut_scan_whole [OF assms, of 0] by simp
  then show ?thesis
    using assms(1) by (subst findall_window.simps) (simp add: findall_window_Nil)
qed

lemma cut_scan_word_none:
  "\<forall>c\<in>set s. \<not> is_space c \<Longrightarrow> b < length s \<Longrightarrow> cut_scan b k s = None"
proof (induction b k s rule: cut_scan.induct)
  case (3 b k c cs)
  then have "cut_scan b (Suc k) cs = None" using space_newline by auto
  moreover have "cs \<noteq> []" using 3 by auto
  moreover have "\<not> is_space (hd cs)" using 3 \<open>cs \<noteq> []\<close> by (cases cs) auto
  ultimately show ?case by simp
qed simp_all

lemma findall_window_word:
  "\<forall>c\<in>set s. \<not> is_space c \<Longrightarrow> 0 < w \<Longrightarrow> w \<le> length s \<Longrightarrow>
     findall_window w s = [drop (length s - w) s]"
proof (induction s)
  case Nil
  then show ?case by simp
next
  case (Cons c cs)
  have nl: "newline \<notin> set (c # cs)" using Cons.prems(1) space_newline by blast
  show ?case
  proof (cases "w = length (c # cs)")
    case True
    then show ?thesis using findall_window_whole [of "c # cs" w] nl by simp
  next
    case False
    then have lt: "w < length (c # cs)" using Cons.prems by simp
    then have "cut_scan w 0 (c # cs) = None"
      using cut_scan_word_none Cons.prems(1) by blast
    then have "findall_window w (c # cs) = findall_window w cs"
      by (subst findall_window.simps) simp
    also have "\<dots> = [drop (length cs - w) cs]" using Cons lt by simp
    also have "drop (length cs - w) cs = drop (length (c # cs) - w) (c # cs)"
      using lt by (simp add: Suc_diff_le)
    finally show ?thesis .
  qed
qed

lemma strip_word: "\<forall>c\<in>set s. \<not> is_space c \<Longrightarrow> strip s = s"
proof (cases s rule: rev_cases)
  case Nil
  then show ?thesis by (simp add: strip_def lstrip_def rstrip_def)
next
  case (snoc ys y)
  assume w: "\<forall>c\<in>set s. \<not> is_space c"
  then have "dropWhile is_space s = s" by (cases s) auto
  moreover have "dropWhile is_space (rev s) = rev s" using w snoc by auto
  ultimately show ?thesis by (simp add: strip_def lstrip_def rstrip_def)
qed

lemma re_split_sentences_word:
  "\<forall>c\<in>set s. \<not> is_space c \<Longrightarrow> re_split_sentences a s = [s]"
  by (induction s arbitrary: a) auto

lemma re_chunk_single:
  assumes "strip s = s" "s \<noteq> []" "re_split_sentences False s = [s]"
    and "max_tokens < int (count_tokens tok s)"
  shows "re_chunk_if_oversize tok [s] max_tokens = hard_split s"
  using assms by (simp add: re_chunk_if_oversize_def really_final_def)

text \<open>
  C5. The claim is that every chunk \<^verbatim>\<open>re_chunk_if_oversize\<close> returns has at most
  \<open>max_tokens\<close> tokens. The code does not keep it: a section that is over the limit, has
  no sentence boundary to split at and fits the 3000-character window of the hard split
  comes back as it went in, because the pieces of the hard split are never measured
  again. So the returned list holds a chunk above the limit.
\<close>

theorem re_chunk_if_oversize_returns_oversize_chunk:
  assumes "strip s = s" and "s \<noteq> []" and "re_split_sentences False s = [s]"
    and "newline \<notin> set s" and "length s \<le> 3000"
    and "max_tokens < int (count_tokens tok s)"
  shows "re_chunk_if_oversize tok [s] max_tokens = [s]
         \<and> \<not> (\<forall>c \<in> set (re_chunk_if_oversize tok [s] max_tokens).
                 int (count_tokens tok c) \<le> max_tokens)"
proof -
  have "hard_split s = [s]"
    using assms(1,2,4,5) by (simp add: hard_split_def findall_window_whole)
  then have "re_chunk_if_oversize tok [s] max_tokens = [s]"
    using re_chunk_single [OF assms(1-3) assms(6)] by simp
  then show ?thesis using assms(6) by simp
qed

lemma strip_a_b_c: "strip ''a b c'' = ''a b c''"
  by (simp add: strip_def lstrip_def rstrip_def is_space_def)

lemma count_tokens_a_b_c: "count_tokens None ''a b c'' = 3"
  by (simp add: count_tokens_def py_split_def lstrip_def is_space_def)

theorem re_chunk_if_oversize_returns_oversize_chunk_witness:
  "strip ''a b c'' = ''a b c'' \<and> re_split_sentences False ''a b c'' = [''a b c'']
   \<and> (2::int) < int (count_tokens None ''a b c'')
   \<and> re_chunk_if_oversize None [''a b c''] 2 = [''a b c'']
   \<and> MAX_TOKENS < int (count_tokens (Some (\<lambda>s. 3 * length s)) (replicate 3000 (CHR ''x'')))
   \<and> re_chunk_if_oversize (Some (\<lambda>s. 3 * length s)) [replicate 3000 (CHR ''x'')] MAX_TOKENS
       = [replicate 3000 (CHR ''x'')]"
proof -
  have sp: "re_split_sentences False ''a b c'' = [''a b c'']"
    by (simp add: is_space_def is_sentence_end_def)
  have nl: "newline \<notin> set ''a b c''" by (simp add: newline_def)
  have ct: "(2::int) < int (count_tokens None ''a b c'')" by (simp add: count_tokens_a_b_c)
  have 1: "re_chunk_if_oversize None [''a b c''] 2 = [''a b c'']"
    using re_chunk_if_oversize_returns_oversize_chunk [OF strip_a_b_c _ sp nl _ ct]
    by simp
  let ?x = "replicate 3000 (CHR ''x'')"
  have w: "\<forall>c \<in> set ?x. \<not> is_space c" by (simp add: is_space_def)
  have nx: "newline \<notin> set ?x" by (simp add: newline_def)
  have cx: "MAX_TOKENS < int (count_tokens (Some (\<lambda>s. 3 * length s)) ?x)"
    by (simp add: MAX_TOKENS_def count_tokens_def)
  have 2: "re_chunk_if_oversize (Some (\<lambda>s. 3 * length s)) [?x] MAX_TOKENS = [?x]"
    using re_chunk_if_oversize_returns_oversize_chunk
            [OF strip_word [OF w] _ re_split_sentences_word [OF w] nx _ cx]
    by simp
  show ?thesis using 1 2 sp ct cx strip_a_b_c by simp
qed

text \<open>
  C6. The claim is that joining the returned chunks gives back the text of the section.
  The code does not keep it: in the hard split a run of more than 3000 characters with no
  whitespace in it matches the pattern only at its end, so of a section that is one such
  run (and is over the limit) only the last 3000 characters are returned and the
  characters before them are lost.
\<close>

theorem re_chunk_if_oversize_loses_text:
  assumes "\<forall>c \<in> set s. \<not> is_space c" and "3000 < length s"
    and "max_tokens < int (count_tokens tok s)"
  shows "re_chunk_if_oversize tok [s] max_tokens = [drop (length s - 3000) s]
         \<and> length (concat (re_chunk_if_oversize tok [s] max_tokens)) < length s"
proof -
  have ne: "s \<noteq> []" using assms(2) by auto
  have w: "\<forall>c \<in> set (drop (length s - 3000) s). \<not> is_space c"
    using assms(1) by (meson in_set_dropD)
  have "findall_window 3000 s = [drop (length s - 3000) s]"
    using findall_window_word [OF assms(1), of 3000] assms(2) by simp
  then have "hard_split s = [drop (length s - 3000) s]"
    using strip_word [OF w] assms(2) by (simp add: hard_split_def)
  then have "re_chunk_if_oversize tok [s] max_tokens = [drop (length s - 3000) s]"
    using re_chunk_single [OF strip_word [OF assms(1)] ne
            re_split_sentences_word [OF assms(1)] assms(3)]
    by simp
  then show ?thesis using assms(2) by simp
qed

theorem re_chunk_if_oversize_loses_text_witness:
  "3000 < length (replicate 8193 (CHR ''a''))
   \<and> MAX_TOKENS < int (count_tokens (Some length) (replicate 8193 (CHR ''a'')))
   \<and> re_chunk_if_oversize (Some length) [replicate 8193 (CHR ''a'')] MAX_TOKENS
       = [replicate 3000 (CHR ''a'')]"
proof -
  have w: "\<forall>c \<in> set (replicate 8193 (CHR ''a'')). \<not> is_space c"
    by (simp add: is_space_def)
  have l: "3000 < length (replicate 8193 (CHR ''a''))" by simp
  have c: "MAX_TOKENS < int (count_tokens (Some length) (replicate 8193 (CHR ''a'')))"
    by (simp add: MAX_TOKENS_def count_tokens_def)
  show ?thesis
    using re_chunk_if_oversize_loses_text [OF w l c] l c by simp
qed

section \<open>Properties of the store gateway\<close>

lemma empty_content_vector_iff:
  "empty_content_vector e \<longleftrightarrow>
     (\<exists>md. entry_metadata e = Some md \<and> md_chunk_type md = ''content''
        \<and> (entry_values e = None \<or> entry_values e = Some []))"
  by (cases "entry_metadata e"; cases "entry_values e") (auto simp: empty_content_vector_def)

text \<open>
  C3. If an entry of the batch has chunk type \<^verbatim>\<open>content\<close> and an empty or absent vector,
  \<^verbatim>\<open>safe_upsert_batch\<close> raises and the store receives nothing. Otherwise the store
  receives the whole batch, once, and the length of the batch is the result when the
  store's call returns (an exception of the store passes through).
\<close>

theorem safe_upsert_batch_fail_fast:
  "((\<exists>e \<in> set batch. \<exists>md. entry_metadata e = Some md \<and> md_chunk_type md = ''content''
        \<and> (entry_values e = None \<or> entry_values e = Some []))
      \<longrightarrow> (\<exists>msg. safe_upsert_batch w batch = (Inl (RuntimeError msg), [])))
   \<and> (\<not> (\<exists>e \<in> set batch. \<exists>md. entry_metadata e = Some md \<and> md_chunk_type md = ''content''
        \<and> (entry_values e = None \<or> entry_values e = Some []))
      \<longrightarrow> snd (safe_upsert_batch w batch) = [Upsert batch]
          \<and> (index_upsert w batch = None
                \<longrightarrow> fst (safe_upsert_batch w batch) = Inr (length batch))
          \<and> (\<forall>m. index_upsert w batch = Some m
                \<longrightarrow> fst (safe_upsert_batch w batch) = Inl (ClientError m)))"
proof -
  have bad: "(\<exists>e \<in> set batch. \<exists>md. entry_metadata e = Some md \<and> md_chunk_type md = ''content''
        \<and> (entry_values e = None \<or> entry_values e = Some []))
      \<longleftrightarrow> (\<exists>e \<in> set batch. empty_content_vector e)"
    by (simp add: empty_content_vector_iff)
  show ?thesis
  proof (cases "find empty_content_vector batch")
    case None
    then have "\<not> (\<exists>e \<in> set batch. empty_content_vector e)"
      by (simp add: find_None_iff)
    then show ?thesis
      unfolding bad using None
      by (auto simp: safe_upsert_batch_def split: option.splits)
  next
    case (Some e)
    then have "\<exists>e \<in> set batch. empty_content_vector e"
      by (metis find_Some_iff nth_mem)
    then show ?thesis
      unfolding bad using Some by (simp add: safe_upsert_batch_def)
  qed
qed

theorem safe_upsert_batch_fail_fast_witness:
  "safe_upsert_batch demo_world bad_batch
     = (Inl (RuntimeError ''Attempted to upsert empty embedding: big.json''), [])
   \<and> safe_upsert_batch demo_world good_batch = (Inr 1, [Upsert good_batch])"
proof -
  have 1: "safe_upsert_batch demo_world bad_batch
     = (Inl (RuntimeError ''Attempted to upsert empty embedding: big.json''), [])"
    using safe_upsert_batch_fail_fast [of bad_batch demo_world]
    by (simp add: safe_upsert_batch_def bad_batch_def empty_content_vector_def)
  have v: "demo_vector \<noteq> []" by (simp add: demo_vector_def)
  have "snd (safe_upsert_batch demo_world good_batch) = [Upsert good_batch]
        \<and> fst (safe_upsert_batch demo_world good_batch) = Inr (length good_batch)"
    using safe_upsert_batch_fail_fast [of good_batch demo_world] v
    by (simp add: good_batch_def demo_world_def)
  then have 2: "safe_upsert_batch demo_world good_batch = (Inr 1, [Upsert good_batch])"
    by (simp add: prod_eq_iff good_batch_def)
  show ?thesis using 1 2 by simp
qed

section \<open>Properties of the Sync Executor\<close>

lemma append_error_fields [simp]:
  "processed (append_error w f opn m st s) = processed s"
  "errors (append_error w f opn m st s) = errors s"
  "skipped (append_error w f opn m st s) = skipped s"
  "failures (append_error w f opn m st s) = failures s"
  "deleted_files (append_error w f opn m st s) = deleted_files s"
  "upserted_ids (append_error w f opn m st s) = upserted_ids s"
  "total_upserted (append_error w f opn m st s) = total_upserted s"
  "calls (append_error w f opn m st s) = calls s"
  by (simp_all add: append_error_def)

lemma journal_append_error:
  "journal (append_error w f opn m st s)
     = journal s @ (if journal_write_ok w (journal_line f opn m st)
                    then [journal_line f opn m st] else [])"
  by (simp add: append_error_def)

lemma record_failure_fields [simp]:
  "processed (record_failure w opn st f e s) = processed s"
  "errors (record_failure w opn st f e s) = errors s + 1"
  "skipped (record_failure w opn st f e s) = skipped s"
  "failures (record_failure w opn st f e s) = failures s @ [failure f opn (str_exn e) st]"
  "deleted_files (record_failure w opn st f e s) = deleted_files s"
  "upserted_ids (record_failure w opn st f e s) = upserted_ids s"
  "total_upserted (record_failure w opn st f e s) = total_upserted s"
  "calls (record_failure w opn st f e s) = calls s"
  by (simp_all add: record_failure_def)

lemma journal_record_failure:
  "journal (record_failure w opn st f e s)
     = journal s @ (if journal_write_ok w (journal_line f opn (str_exn e) st)
                    then [journal_line f opn (str_exn e) st] else [])"
  by (simp add: record_failure_def journal_append_error)

lemma snd_safe_delete_vectors:
  "snd (safe_delete_vectors w fp) = [DeleteByFilter (repo_name w) fp]"
  by (simp add: safe_delete_vectors_def split: option.splits)

lemma snd_safe_upsert_batch:
  "snd (safe_upsert_batch w b) = [] \<or> snd (safe_upsert_batch w b) = [Upsert b]"
  by (simp add: safe_upsert_batch_def split: option.splits)

lemma calls_upsert_batches:
  "calls (upsert_batches w st fp bs s)
     = calls s @ concat (map (\<lambda>b. snd (safe_upsert_batch w b)) bs)"
proof (induction bs arbitrary: s)
  case Nil
  then show ?case by simp
next
  case (Cons b bs)
  show ?case
  proof (cases "safe_upsert_batch w b")
    case (Pair r cs)
    then show ?thesis using Cons by (cases r) simp_all
  qed
qed

lemma concat_batches: "0 < n \<Longrightarrow> concat (batches n xs) = xs"
proof (induction n xs rule: batches.induct)
  case (1 n xs)
  then show ?case by (subst batches.simps) simp
qed

lemma in_batches_subset:
  assumes "0 < n" and "b \<in> set (batches n xs)"
  shows "set b \<subseteq> set xs"
proof -
  have "set b \<subseteq> set (concat (batches n xs))" using assms(2) by auto
  also have "concat (batches n xs) = xs" by (rule concat_batches [OF assms(1)])
  finally show ?thesis .
qed

lemma chunk_entries_path:
  "chunk_entries w fp st se ct i chunks = Inr es \<Longrightarrow> e \<in> set es \<Longrightarrow>
     \<exists>md. entry_metadata e = Some md \<and> md_file_path md = fp"
proof (induction chunks arbitrary: i es)
  case Nil
  then show ?case by simp
next
  case (Cons c cs)
  then show ?case
    by (fastforce split: if_splits sum.splits)
qed

lemma process_file_path:
  "process_file w fp st = Inr es \<Longrightarrow> e \<in> set es \<Longrightarrow>
     \<exists>md. entry_metadata e = Some md \<and> md_file_path md = fp"
  by (auto simp: process_file_def split: if_splits prod.splits dest: chunk_entries_path)

text \<open>The store requests of one Add or Modify record whose file exists.\<close>

lemma upsert_calls_of_file:
  assumes "process_file w fp st = Inr es"
    and "c \<in> set (concat (map (\<lambda>b. snd (safe_upsert_batch w b)) (batches BATCH_SIZE es)))"
  shows "\<exists>batch. c = Upsert batch
           \<and> (\<forall>e \<in> set batch. \<exists>md. entry_metadata e = Some md \<and> md_file_path md = fp)"
proof -
  from assms(2) obtain b where b: "b \<in> set (batches BATCH_SIZE es)"
    and c: "c \<in> set (snd (safe_upsert_batch w b))" by auto
  have "c = Upsert b" using c snd_safe_upsert_batch [of w b] by auto
  moreover have "set b \<subseteq> set es"
    using in_batches_subset [OF _ b] by (simp add: BATCH_SIZE_def)
  ultimately show ?thesis using process_file_path [OF assms(1)] by blast
qed

lemma calls_existing_file:
  assumes "status = ''A'' \<or> status = ''M''" and "path_kind w fp = RegularFile"
  shows "\<exists>ups. calls (process_record w wipe_first s (status, fp))
             = calls s @ (if wipe_first then [] else [DeleteByFilter (repo_name w) fp]) @ ups
           \<and> (\<forall>c \<in> set ups. \<exists>batch. c = Upsert batch
                 \<and> (\<forall>e \<in> set batch. \<exists>md. entry_metadata e = Some md \<and> md_file_path md = fp))"
proof -
  have st: "status \<noteq> ''D''" using assms(1) by auto
  obtain r cs where d: "safe_delete_vectors w fp = (r, cs)" by (cases "safe_delete_vectors w fp")
  then have cs: "cs = [DeleteByFilter (repo_name w) fp]"
    using snd_safe_delete_vectors [of w fp] by simp
  show ?thesis
  proof (cases "process_file w fp status")
    case (Inl e)
    then show ?thesis
      using st assms d cs
      by (cases r; cases wipe_first) (auto simp: process_record_def)
  next
    case (Inr es)
    let ?ups = "concat (map (\<lambda>b. snd (safe_upsert_batch w b)) (batches BATCH_SIZE es))"
    have ups: "\<forall>c \<in> set ?ups. \<exists>batch. c = Upsert batch
                 \<and> (\<forall>e \<in> set batch. \<exists>md. entry_metadata e = Some md \<and> md_file_path md = fp)"
      using upsert_calls_of_file [OF Inr] by blast
    show ?thesis
    proof (cases "\<not> wipe_first \<and> r \<noteq> None")
      case True
      then show ?thesis
        using st assms d cs Inr by (auto simp: process_record_def)
    next
      case False
      then have "calls (process_record w wipe_first s (status, fp))
             = calls s @ (if wipe_first then [] else [DeleteByFilter (repo_name w) fp]) @ ?ups"
        using st assms d cs Inr
        by (cases r; cases wipe_first)
           (auto simp: process_record_def Let_def calls_upsert_batches)
      then show ?thesis using ups by blast
    qed
  qed
qed

text \<open>
  C1. For an Add or Modify record whose path is a regular file, a run without
  \<^verbatim>\<open>wipe_first\<close> sends the filtered delete for the repository tag and the path first,
  and every request of that record after it is an upsert of entries of that path. A run
  with \<^verbatim>\<open>wipe_first\<close> sends no delete for the record: its requests are upserts only.
\<close>

theorem pre_delete_before_upsert:
  assumes "status = ''A'' \<or> status = ''M''" and "path_kind w filepath = RegularFile"
  shows "(\<exists>ups. calls (run_loop w False s (pre @ [(status, filepath)]))
             = calls (run_loop w False s pre) @ DeleteByFilter (repo_name w) filepath # ups
           \<and> (\<forall>c \<in> set ups. \<exists>batch. c = Upsert batch
                 \<and> (\<forall>e \<in> set batch. \<exists>md. entry_metadata e = Some md
                                          \<and> md_file_path md = filepath)))
       \<and> (\<exists>ups. calls (run_loop w True s (pre @ [(status, filepath)]))
             = calls (run_loop w True s pre) @ ups
           \<and> (\<forall>c \<in> set ups. \<exists>batch. c = Upsert batch))"
proof -
  have a: "\<exists>ups. calls (run_loop w False s (pre @ [(status, filepath)]))
             = calls (run_loop w False s pre) @ DeleteByFilter (repo_name w) filepath # ups
           \<and> (\<forall>c \<in> set ups. \<exists>batch. c = Upsert batch
                 \<and> (\<forall>e \<in> set batch. \<exists>md. entry_metadata e = Some md
                                          \<and> md_file_path md = filepath))"
    using calls_existing_file [OF assms, of False "run_loop w False s pre"]
    by (simp add: run_loop_def)
  have b: "\<exists>ups. calls (run_loop w True s (pre @ [(status, filepath)]))
             = calls (run_loop w True s pre) @ ups
           \<and> (\<forall>c \<in> set ups. \<exists>batch. c = Upsert batch)"
    using calls_existing_file [OF assms, of True "run_loop w True s pre"]
    by (simp add: run_loop_def) blast
  show ?thesis using a b by blast
qed

theorem pre_delete_before_upsert_witness:
  "path_kind demo_world ''one.py'' = RegularFile
   \<and> (\<exists>ups. calls (run_loop demo_world False init_state [(''M'', ''one.py'')])
               = DeleteByFilter ''webroot'' ''one.py'' # ups
             \<and> list_all (\<lambda>c. \<exists>batch. c = Upsert batch) ups)
   \<and> list_all (\<lambda>c. \<exists>batch. c = Upsert batch)
        (calls (run_loop demo_world True init_state [(''M'', ''one.py'')]))"
proof -
  have k: "path_kind demo_world ''one.py'' = RegularFile" by (simp add: demo_world_def)
  have e: "calls (run_loop demo_world wipe init_state []) = []" for wipe
    by (simp add: run_loop_def init_state_def)
  have r: "repo_name demo_world = ''webroot''" by (simp add: demo_world_def)
  show ?thesis
    using pre_delete_before_upsert [of "''M''" demo_world "''one.py''" init_state "[]"] k
    by (simp add: e r list_all_iff) blast
qed




text \<open>
  C9. An Add or Modify record whose path is not on disk is counted twice: the skipped
  counter and the errors counter both go up by one, a failure of operation
  \<^verbatim>\<open>process\<close> with the file-not-found message is recorded and journalled, the file is
  not counted as processed and the store receives nothing.
\<close>

theorem missing_file_is_skipped_and_failed:
  fixes w :: world and s :: sync_state
  defines "msg \<equiv> \<lambda>status filepath. ''File marked as '' @ status @ '' but not found: '' @ filepath"
  assumes "status = ''A'' \<or> status = ''M''" and "path_kind w filepath = Absent"
  shows "skipped (process_record w wipe_first s (status, filepath)) = skipped s + 1
       \<and> errors (process_record w wipe_first s (status, filepath)) = errors s + 1
       \<and> failures (process_record w wipe_first s (status, filepath))
           = failures s @ [\<lparr>er_file_path = filepath, er_operation = ''process'',
                            er_message = msg status filepath, er_status = Some status\<rparr>]
       \<and> journal (process_record w wipe_first s (status, filepath))
           = journal s @
               (if journal_write_ok w
                     \<lparr>er_file_path = filepath, er_operation = ''process'',
                      er_message = msg status filepath, er_status = Some status\<rparr>
                then [\<lparr>er_file_path = filepath, er_operation = ''process'',
                       er_message = msg status filepath, er_status = Some status\<rparr>]
                else [])
       \<and> processed (process_record w wipe_first s (status, filepath)) = processed s
       \<and> deleted_files (process_record w wipe_first s (status, filepath)) = deleted_files s
       \<and> calls (process_record w wipe_first s (status, filepath)) = calls s"
proof -
  have st: "status \<noteq> ''D''" "status \<noteq> []" using assms(2) by auto
  have pr: "process_record w wipe_first s (status, filepath)
        = record_failure w ''process'' status filepath
            (FileNotFoundError (msg status filepath)) (s\<lparr>skipped := skipped s + 1\<rparr>)"
    using st assms(3) by (simp add: process_record_def msg_def)
  show ?thesis
    unfolding pr using st
    by (simp add: journal_record_failure failure_def journal_line_def)
qed

theorem missing_file_is_skipped_and_failed_witness:
  "path_kind demo_world ''nope.py'' = Absent
   \<and> skipped (process_record demo_world False init_state (''M'', ''nope.py'')) = 1
   \<and> errors (process_record demo_world False init_state (''M'', ''nope.py'')) = 1
   \<and> failures (process_record demo_world False init_state (''M'', ''nope.py''))
       = [\<lparr>er_file_path = ''nope.py'', er_operation = ''process'',
           er_message = ''File marked as M but not found: nope.py'', er_status = Some ''M''\<rparr>]
   \<and> journal (process_record demo_world False init_state (''M'', ''nope.py''))
       = [\<lparr>er_file_path = ''nope.py'', er_operation = ''process'',
           er_message = ''File marked as M but not found: nope.py'', er_status = Some ''M''\<rparr>]
   \<and> processed (process_record demo_world False init_state (''M'', ''nope.py'')) = 0
   \<and> calls (process_record demo_world False init_state (''M'', ''nope.py'')) = []"
proof -
  have k: "path_kind demo_world ''nope.py'' = Absent" by (simp add: demo_world_def)
  have j: "journal_write_ok demo_world r" for r by (simp add: demo_world_def)
  show ?thesis
    using missing_file_is_skipped_and_failed [of "''M''" demo_world "''nope.py''" False init_state] k
    by (simp add: j init_state_def)
qed

lemma journal_line_form: "journal_line f opn m st = journal_form (failure f opn m st)"
  by (simp add: journal_line_def journal_form_def failure_def)

lemma upsert_batches_failures:
  "failures (upsert_batches w st fp bs s) = failures s @ upsert_failures w st fp bs"
proof (induction bs arbitrary: s)
  case Nil
  then show ?case by (simp add: upsert_failures_def)
next
  case (Cons b bs)
  show ?case
  proof (cases "safe_upsert_batch w b")
    case (Pair r cs)
    then show ?thesis using Cons by (cases r) (simp_all add: upsert_failures_def)
  qed
qed

lemma upsert_batches_errors:
  "errors (upsert_batches w st fp bs s) = errors s + length (upsert_failures w st fp bs)"
proof (induction bs arbitrary: s)
  case Nil
  then show ?case by (simp add: upsert_failures_def)
next
  case (Cons b bs)
  show ?case
  proof (cases "safe_upsert_batch w b")
    case (Pair r cs)
    then show ?thesis using Cons by (cases r) (simp_all add: upsert_failures_def)
  qed
qed

lemma upsert_batches_journal:
  assumes "\<forall>l. journal_write_ok w l"
  shows "journal (upsert_batches w st fp bs s)
           = journal s @ map journal_form (upsert_failures w st fp bs)"
proof (induction bs arbitrary: s)
  case Nil
  then show ?case by (simp add: upsert_failures_def)
next
  case (Cons b bs)
  show ?case
  proof (cases "safe_upsert_batch w b")
    case (Pair r cs)
    then show ?thesis
      using Cons assms
      by (cases r) (simp_all add: upsert_failures_def journal_record_failure journal_line_form)
  qed
qed

lemma upsert_failures_shape:
  "f \<in> set (upsert_failures w st fp bs) \<Longrightarrow>
     er_file_path f = fp \<and> er_operation f = ''upsert'' \<and> er_status f = Some st"
  by (auto simp: upsert_failures_def failure_def split: sum.splits)

lemma process_record_failures:
  "failures (process_record w wipe s r) = failures s @ record_failures w wipe r"
  by (cases r)
     (auto simp: record_failures_def process_record_def init_state_def Let_def
                 upsert_batches_failures
           split: prod.splits option.splits sum.splits)

lemma process_record_calls:
  "calls (process_record w wipe s r) = calls s @ record_calls w wipe r"
  by (cases r)
     (auto simp: record_calls_def process_record_def init_state_def Let_def
                 calls_upsert_batches
           split: prod.splits option.splits sum.splits)

lemma process_record_errors:
  "errors (process_record w wipe s r) = errors s + length (record_failures w wipe r)"
  by (cases r)
     (auto simp: record_failures_def process_record_def init_state_def Let_def
                 upsert_batches_failures upsert_batches_errors
           split: prod.splits option.splits sum.splits)

lemma process_record_journal:
  assumes "\<forall>l. journal_write_ok w l"
  shows "filter (\<lambda>l. er_operation l \<noteq> ''skip-dir'') (journal (process_record w wipe s r))
           = filter (\<lambda>l. er_operation l \<noteq> ''skip-dir'') (journal s)
               @ map journal_form (record_failures w wipe r)"
proof -
  have up: "filter (\<lambda>l. er_operation l \<noteq> ''skip-dir'') (map journal_form (upsert_failures w st fp bs))
              = map journal_form (upsert_failures w st fp bs)" for st fp bs
    by (rule filter_True) (auto simp: journal_form_def dest: upsert_failures_shape)
  show ?thesis
    using assms
    by (cases r)
       (auto simp: record_failures_def process_record_def init_state_def Let_def
                   upsert_batches_failures upsert_batches_journal journal_record_failure
                   journal_append_error journal_line_form up
                   journal_form_def failure_def journal_line_def
             split: prod.splits option.splits sum.splits)
qed

lemma record_failures_shape:
  "f \<in> set (record_failures w wipe (st, fp)) \<Longrightarrow>
     er_file_path f = fp \<and> er_status f = Some st
       \<and> (er_operation f = ''process'' \<or> er_operation f = ''upsert'')"
  by (auto simp: record_failures_def process_record_def init_state_def Let_def
                 upsert_batches_failures failure_def
           split: prod.splits option.splits sum.splits if_splits
           dest: upsert_failures_shape)

lemma record_failures_raise:
  assumes "path_kind w fp = RegularFile" and "st \<noteq> ''D''"
    and "fst (safe_delete_vectors w fp) = None" and "process_file w fp st = Inl e"
  shows "record_failures w wipe (st, fp) = [failure fp ''process'' (str_exn e) st]"
  using assms
  by (cases "safe_delete_vectors w fp")
     (auto simp: record_failures_def process_record_def init_state_def)

lemma run_loop_failures:
  "failures (run_loop w wipe s recs) = failures s @ concat (map (record_failures w wipe) recs)"
  unfolding run_loop_def
  by (induction recs arbitrary: s) (simp_all add: process_record_failures)

lemma run_loop_calls:
  "calls (run_loop w wipe s recs) = calls s @ concat (map (record_calls w wipe) recs)"
  unfolding run_loop_def
  by (induction recs arbitrary: s) (simp_all add: process_record_calls)

lemma run_loop_errors:
  "errors (run_loop w wipe s recs)
     = errors s + length (concat (map (record_failures w wipe) recs))"
  unfolding run_loop_def
  by (induction recs arbitrary: s) (simp_all add: process_record_errors)

lemma run_loop_journal:
  assumes "\<forall>l. journal_write_ok w l"
  shows "filter (\<lambda>l. er_operation l \<noteq> ''skip-dir'') (journal (run_loop w wipe s recs))
           = filter (\<lambda>l. er_operation l \<noteq> ''skip-dir'') (journal s)
               @ map journal_form (concat (map (record_failures w wipe) recs))"
  unfolding run_loop_def
  by (induction recs arbitrary: s) (simp_all add: process_record_journal [OF assms])

text \<open>
  C4. When the clients are set up and the wipe, if asked for, has succeeded, every record
  of the list is attempted whatever happened to the records before it: the failures and
  the store requests of the run are those of each record processed on its own, in order.
  Every failure carries the path and status of its record, and a record whose processing
  raises leaves exactly the failure of that exception. Each is counted (\<^verbatim>\<open>errors\<close>
  is the number of failures) and, where the journal can be written, journalled. The run
  ends with \<^verbatim>\<open>SystemExit(1)\<close> exactly when some record failed, and returns otherwise.
\<close>

theorem run_sync_isolates_failures:
  assumes "client_setup w = None" and "wipe_first \<longrightarrow> wipe_namespace w = None"
  shows "failures (snd (run_sync w recs wipe_first))
           = concat (map (record_failures w wipe_first) recs)
       \<and> calls (snd (run_sync w recs wipe_first))
           = (if wipe_first then [DeleteAll] else []) @ concat (map (record_calls w wipe_first) recs)
       \<and> (\<forall>r \<in> set recs. \<forall>f \<in> set (record_failures w wipe_first r).
             er_file_path f = snd r \<and> er_status f = Some (fst r)
               \<and> (er_operation f = ''process'' \<or> er_operation f = ''upsert''))
       \<and> (\<forall>st fp e. path_kind w fp = RegularFile \<and> st \<noteq> ''D''
             \<and> fst (safe_delete_vectors w fp) = None \<and> process_file w fp st = Inl e
             \<longrightarrow> record_failures w wipe_first (st, fp) = [failure fp ''process'' (str_exn e) st])
       \<and> errors (snd (run_sync w recs wipe_first))
           = length (failures (snd (run_sync w recs wipe_first)))
       \<and> ((\<forall>l. journal_write_ok w l) \<longrightarrow>
            filter (\<lambda>l. er_operation l \<noteq> ''skip-dir'') (journal (snd (run_sync w recs wipe_first)))
              = map journal_form (failures (snd (run_sync w recs wipe_first))))
       \<and> (fst (run_sync w recs wipe_first) = SystemExit 1
            \<longleftrightarrow> (\<exists>r \<in> set recs. record_failures w wipe_first r \<noteq> []))
       \<and> (fst (run_sync w recs wipe_first) = SystemExit 1
            \<or> fst (run_sync w recs wipe_first)
                 = Returned (upserted_ids (snd (run_sync w recs wipe_first))))"
proof -
  let ?s0 = "init_state\<lparr>calls := (if wipe_first then [DeleteAll] else [])\<rparr>"
  let ?fin = "run_loop w wipe_first ?s0 recs"
  have w0: "(if wipe_first then wipe_namespace w else None) = None" using assms(2) by simp
  have run: "run_sync w recs wipe_first
               = (if failures ?fin \<noteq> [] then SystemExit 1 else Returned (upserted_ids ?fin), ?fin)"
    using assms(1) w0 by (simp add: run_sync_def Let_def)
  have f: "failures ?fin = concat (map (record_failures w wipe_first) recs)"
    by (simp add: run_loop_failures init_state_def)
  have c: "calls ?fin
             = (if wipe_first then [DeleteAll] else []) @ concat (map (record_calls w wipe_first) recs)"
    by (simp add: run_loop_calls)
  have e: "errors ?fin = length (failures ?fin)"
    by (simp add: run_loop_errors run_loop_failures init_state_def)
  have j: "(\<forall>l. journal_write_ok w l) \<longrightarrow>
            filter (\<lambda>l. er_operation l \<noteq> ''skip-dir'') (journal ?fin) = map journal_form (failures ?fin)"
    by (simp add: run_loop_journal run_loop_failures init_state_def)
  have sh: "\<forall>r \<in> set recs. \<forall>f \<in> set (record_failures w wipe_first r).
             er_file_path f = snd r \<and> er_status f = Some (fst r)
               \<and> (er_operation f = ''process'' \<or> er_operation f = ''upsert'')"
    using record_failures_shape by (metis prod.collapse)
  have x: "failures ?fin \<noteq> [] \<longleftrightarrow> (\<exists>r \<in> set recs. record_failures w wipe_first r \<noteq> [])"
    unfolding f by auto
  have r: "\<forall>st fp e. path_kind w fp = RegularFile \<and> st \<noteq> ''D''
             \<and> fst (safe_delete_vectors w fp) = None \<and> process_file w fp st = Inl e
             \<longrightarrow> record_failures w wipe_first (st, fp) = [failure fp ''process'' (str_exn e) st]"
    using record_failures_raise by blast
  show ?thesis
    unfolding run using f c e j sh x r by simp
qed

lemma demo_record_failures:
  "record_failures demo_world False (''M'', ''one.py'') = []"
  "record_failures demo_world False (''M'', ''two.py'')
     = [\<lparr>er_file_path = ''two.py'', er_operation = ''process'',
         er_message = ''Embedding failed: rate limit'', er_status = Some ''M''\<rparr>]"
  "record_failures demo_world False (''A'', ''three.py'') = []"
  by code_simp+

lemma demo_processed:
  "processed (snd (run_sync demo_world
      [(''M'', ''one.py''), (''M'', ''two.py''), (''A'', ''three.py'')] False)) = 2"
  by code_simp

theorem run_sync_isolates_failures_witness:
  "client_setup demo_world = None
   \<and> fst (run_sync demo_world
        [(''M'', ''one.py''), (''M'', ''two.py''), (''A'', ''three.py'')] False) = SystemExit 1
   \<and> failures (snd (run_sync demo_world
        [(''M'', ''one.py''), (''M'', ''two.py''), (''A'', ''three.py'')] False))
       = [\<lparr>er_file_path = ''two.py'', er_operation = ''process'',
           er_message = ''Embedding failed: rate limit'', er_status = Some ''M''\<rparr>]
   \<and> filter (\<lambda>l. er_operation l \<noteq> ''skip-dir'') (journal (snd (run_sync demo_world
        [(''M'', ''one.py''), (''M'', ''two.py''), (''A'', ''three.py'')] False)))
       = [\<lparr>er_file_path = ''two.py'', er_operation = ''process'',
           er_message = ''Embedding failed: rate limit'', er_status = Some ''M''\<rparr>]
   \<and> errors (snd (run_sync demo_world
        [(''M'', ''one.py''), (''M'', ''two.py''), (''A'', ''three.py'')] False)) = 1
   \<and> processed (snd (run_sync demo_world
        [(''M'', ''one.py''), (''M'', ''two.py''), (''A'', ''three.py'')] False)) = 2"
proof -
  have s: "client_setup demo_world = None" by (simp add: demo_world_def)
  have j: "journal_write_ok demo_world l" for l by (simp add: demo_world_def)
  show ?thesis
    using run_sync_isolates_failures
            [of demo_world False "[(''M'', ''one.py''), (''M'', ''two.py''), (''A'', ''three.py'')]"]
          s demo_processed
    by (simp add: demo_record_failures j journal_form_def)
qed

section \<open>Properties of the Change Set Resolver\<close>

lemma strip_ends:
  assumes "s \<noteq> []" "\<not> is_space (hd s)" "\<not> is_space (last s)"
  shows "strip s = s"
proof -
  have 1: "dropWhile is_space s = s" using assms(1,2) by (cases s) auto
  obtain ys y where s: "s = ys @ [y]" using assms(1) by (cases s rule: rev_cases) auto
  then have 2: "dropWhile is_space (rev s) = rev s" using assms(3) by simp
  show ?thesis by (simp add: strip_def lstrip_def rstrip_def 1 2)
qed

lemma split_on_no_sep: "d \<notin> set s \<Longrightarrow> split_on d s = [s]"
  by (induction s) auto

lemma split_on_append: "d \<notin> set a \<Longrightarrow> split_on d (a @ d # r) = a # split_on d r"
  by (induction a) auto

lemma starts_with_R: "starts_with ''R'' st \<longleftrightarrow> (\<exists>r. st = CHR ''R'' # r)"
  by (cases st) auto

lemma name_status_rename:
  assumes "starts_with ''R'' st" "tab \<notin> set st" "tab \<notin> set old" "tab \<notin> set new"
    and "new \<noteq> []" "\<not> is_space (last new)"
  shows "name_status_records prefix (st @ tab # old @ tab # new)
           = [(''D'', prefix @ old), (''M'', prefix @ new)]"
proof -
  obtain r where st: "st = CHR ''R'' # r" using assms(1) starts_with_R by blast
  have "\<not> is_space (CHR ''R'')" by (simp add: is_space_def)
  then have "strip (st @ tab # old @ tab # new) = st @ tab # old @ tab # new"
    using assms(5,6) st by (intro strip_ends) simp_all
  moreover have "split_on tab (st @ tab # old @ tab # new) = [st, old, new]"
    using assms(2-4) by (simp add: split_on_append split_on_no_sep)
  ultimately show ?thesis
    using assms(1) by (simp add: name_status_records_def)
qed

lemma lstrip_spaces: "\<forall>c \<in> set ws. is_space c \<Longrightarrow> lstrip (ws @ s) = lstrip s"
  by (simp add: lstrip_def)

lemma lstrip_word: "s \<noteq> [] \<Longrightarrow> \<not> is_space (hd s) \<Longrightarrow> lstrip s = s"
  by (cases s) (simp_all add: lstrip_def)

lemma take_word:
  assumes "\<forall>c \<in> set a. \<not> is_space c" "ws \<noteq> []" "is_space (hd ws)"
  shows "takeWhile (\<lambda>c. \<not> is_space c) (a @ ws @ r) = a"
    and "dropWhile (\<lambda>c. \<not> is_space c) (a @ ws @ r) = ws @ r"
  using assms by (cases ws; simp)+

lemma py_split_max_three:
  assumes "\<forall>c \<in> set st. \<not> is_space c" "st \<noteq> []"
    and "\<forall>c \<in> set old. \<not> is_space c" "old \<noteq> []"
    and "\<forall>c \<in> set new. \<not> is_space c" "new \<noteq> []"
    and "\<forall>c \<in> set ws1. is_space c" "ws1 \<noteq> []"
    and "\<forall>c \<in> set ws2. is_space c" "ws2 \<noteq> []"
  shows "py_split_max 2 (st @ ws1 @ old @ ws2 @ new) = [st, old, new]"
proof -
  have h: "\<not> is_space (hd st)" "\<not> is_space (hd old)" "\<not> is_space (hd new)"
    "is_space (hd ws1)" "is_space (hd ws2)"
    using assms by (simp_all)
  have l1: "lstrip (st @ ws1 @ old @ ws2 @ new) = st @ ws1 @ old @ ws2 @ new"
    using assms(2) h(1) by (intro lstrip_word) simp_all
  have l2: "lstrip (ws1 @ old @ ws2 @ new) = old @ ws2 @ new"
    using lstrip_spaces [OF assms(7)] lstrip_word [of "old @ ws2 @ new"] assms(4) h(2) by simp
  have l3: "lstrip (ws2 @ new) = new"
    using lstrip_spaces [OF assms(9)] lstrip_word [of new] assms(6) h(3) by simp
  have t1: "takeWhile (\<lambda>c. \<not> is_space c) (st @ ws1 @ old @ ws2 @ new) = st"
    "dropWhile (\<lambda>c. \<not> is_space c) (st @ ws1 @ old @ ws2 @ new) = ws1 @ old @ ws2 @ new"
    using take_word [OF assms(1) assms(8) h(4)] by simp_all
  have t2: "takeWhile (\<lambda>c. \<not> is_space c) (old @ ws2 @ new) = old"
    "dropWhile (\<lambda>c. \<not> is_space c) (old @ ws2 @ new) = ws2 @ new"
    using take_word [OF assms(3) assms(10) h(5)] by simp_all
  have "py_split_max (Suc (Suc 0)) (st @ ws1 @ old @ ws2 @ new) = [st, old, new]"
    using assms(2,4,6) by (simp add: l1 l2 l3 t1 t2)
  then show ?thesis by (simp add: numeral_2_eq_2)
qed

lemma changed_line_rename:
  assumes "starts_with ''R'' st" "\<forall>c \<in> set st. \<not> is_space c"
    and "\<forall>c \<in> set old. \<not> is_space c" "old \<noteq> []"
    and "\<forall>c \<in> set new. \<not> is_space c" "new \<noteq> []"
    and "\<forall>c \<in> set ws1. is_space c" "ws1 \<noteq> []"
    and "\<forall>c \<in> set ws2. is_space c" "ws2 \<noteq> []"
  shows "changed_line (st @ ws1 @ old @ ws2 @ new) = Inr [(''D'', old), (''M'', new)]"
proof -
  have "st \<noteq> []" using assms(1) starts_with_R by auto
  then have "py_split_max 2 (st @ ws1 @ old @ ws2 @ new) = [st, old, new]"
    using assms by (intro py_split_max_three) simp_all
  then show ?thesis using assms(1) by (simp add: changed_line_def)
qed

text \<open>
  C2, as the claim states it, fails: the second record of a rename is a Modify of the new
  path, not an Add (the module's docstring, line 19: "Rename: expanded to D old + M new").
\<close>

theorem rename_resolves_to_add_counterexample:
  "name_status_records [] rename_line
     \<noteq> [(''D'', ''old.md''), (''A'', ''new.md'')]
   \<and> changed_line rename_line
     \<noteq> Inr [(''D'', ''old.md''), (''A'', ''new.md'')]"
  by (simp add: rename_line_def name_status_records_def changed_line_def strip_def lstrip_def
        rstrip_def is_space_def tab_def numeral_2_eq_2)

text \<open>
  C2, amended. A rename entry, a status that starts with \<^verbatim>\<open>R\<close> followed by the old and
  the new path, resolves to exactly two records, Delete of the old path and then Modify of
  the new one: for a tab-separated line of a superproject diff, for such a line of a diff
  inside a submodule (both paths prefixed with the submodule path), and for a line of a
  changed-files listing whose fields are separated by whitespace and hold none. The filter
  that \<^verbatim>\<open>main_entry\<close> applies to the records of a commit range keeps both.
\<close>

theorem rename_expands_to_delete_then_modify:
  assumes "starts_with ''R'' st"
  shows "(tab \<notin> set st \<and> tab \<notin> set old \<and> tab \<notin> set new \<and> new \<noteq> [] \<and> \<not> is_space (last new)
            \<longrightarrow> name_status_records [] (st @ tab # old @ tab # new)
                  = [(''D'', old), (''M'', new)]
                \<and> name_status_records (sub_path @ ''/'') (st @ tab # old @ tab # new)
                  = [(''D'', sub_path @ ''/'' @ old), (''M'', sub_path @ ''/'' @ new)])
       \<and> ((\<forall>c \<in> set (st @ old @ new). \<not> is_space c) \<and> old \<noteq> [] \<and> new \<noteq> []
            \<and> (\<forall>c \<in> set (ws1 @ ws2). is_space c) \<and> ws1 \<noteq> [] \<and> ws2 \<noteq> []
            \<longrightarrow> changed_line (st @ ws1 @ old @ ws2 @ new) = Inr [(''D'', old), (''M'', new)])
       \<and> filter (\<lambda>(s, fp). \<not> starts_with ''R'' s) [(''D'', old), (''M'', new)]
           = [(''D'', old), (''M'', new)]"
  using name_status_rename [OF assms, of old new "[]"]
        name_status_rename [OF assms, of old new "sub_path @ ''/''"]
        changed_line_rename [OF assms, of old new ws1 ws2]
  by simp

lemma demo_from_commit:
  "fst (main_entry demo_host (no_args\<lparr>from_commit := Some ''abc1234''\<rparr>))
     = RunSync [(''D'', PStr ''old.md''), (''M'', PStr ''new.md''),
                (''D'', PStr ''team/old.md''), (''M'', PStr ''team/new.md'')] False"
  by code_simp

lemma demo_changed_files:
  "fst (main_entry demo_host (no_args\<lparr>changed_files := Some ''changed_files.txt''\<rparr>))
     = RunSync [(''D'', PStr ''old.md''), (''M'', PStr ''new.md'')] False"
  by code_simp

theorem rename_expands_to_delete_then_modify_witness:
  "starts_with ''R'' ''R100''
   \<and> name_status_records [] rename_line
       = [(''D'', ''old.md''), (''M'', ''new.md'')]
   \<and> name_status_records ''team/'' rename_line
       = [(''D'', ''team/old.md''), (''M'', ''team/new.md'')]
   \<and> changed_line rename_line
       = Inr [(''D'', ''old.md''), (''M'', ''new.md'')]
   \<and> fst (main_entry demo_host (no_args\<lparr>from_commit := Some ''abc1234''\<rparr>))
       = RunSync [(''D'', PStr ''old.md''), (''M'', PStr ''new.md''),
                  (''D'', PStr ''team/old.md''), (''M'', PStr ''team/new.md'')] False
   \<and> fst (main_entry demo_host (no_args\<lparr>changed_files := Some ''changed_files.txt''\<rparr>))
       = RunSync [(''D'', PStr ''old.md''), (''M'', PStr ''new.md'')] False"
proof -
  have r: "starts_with ''R'' ''R100''" by simp
  show ?thesis
    using rename_expands_to_delete_then_modify
            [OF r, of "''old.md''" "''new.md''" "''team''" "[tab]" "[tab]"]
          demo_from_commit demo_changed_files
    by (simp add: rename_line_def is_space_def tab_def)
qed

lemma parse_token_error: "parse_token tok = Inl e \<Longrightarrow> \<exists>msg. e = RuntimeError msg"
  by (auto simp: parse_token_def Let_def split: if_splits)

lemma parse_tokens_bad:
  "tok \<in> set toks \<Longrightarrow> parse_token tok = Inl e \<Longrightarrow> \<exists>msg. parse_tokens toks = Inl (RuntimeError msg)"
proof (induction toks)
  case Nil
  then show ?case by simp
next
  case (Cons t ts)
  show ?case
  proof (cases "parse_token t")
    case (Inl e')
    then show ?thesis using parse_token_error [OF Inl] by auto
  next
    case (Inr r)
    then have "tok \<in> set ts" using Cons.prems by auto
    then obtain msg where "parse_tokens ts = Inl (RuntimeError msg)"
      using Cons by blast
    then show ?thesis using Inr by simp
  qed
qed

text \<open>
  C7, as the claim states it, fails: \<^verbatim>\<open>--reindex-all\<close> together with \<^verbatim>\<open>--from-commit\<close>
  is not rejected (the test of line 718 does not look at \<^verbatim>\<open>from_commit\<close>) and the run
  goes on to wipe and re-index; and when a credential is missing and
  \<^verbatim>\<open>--skip-on-missing-keys\<close> is set, the run ends with exit status 0 before the test.
\<close>

theorem reindex_all_with_other_input_counterexample:
  "fst (main_entry demo_host (no_args\<lparr>reindex_all := True, from_commit := Some ''abc1234''\<rparr>))
     = RunSync [(''A'', PStr ''a.py''), (''A'', PStr ''team/src/x.rs'')] True
   \<and> main_entry (demo_host\<lparr>VOYAGE_API_KEY := None\<rparr>)
        (no_args\<lparr>reindex_all := True, files := Some [''a.py''], skip_on_missing_keys := True\<rparr>)
     = (Exit 0, [])"
  by code_simp

text \<open>
  C7, amended. Unless a credential is missing and \<^verbatim>\<open>--skip-on-missing-keys\<close> is set, a
  run that asks for \<^verbatim>\<open>--reindex-all\<close> together with a non-empty \<^verbatim>\<open>--files\<close> list, a
  \<^verbatim>\<open>--retry-errors\<close> path or a positional changed-files path ends with a
  \<^verbatim>\<open>RuntimeError\<close> before anything is done to the outside. With the credentials present
  and none of these given, a reindex-all run whose resolved set is empty ends with a
  \<^verbatim>\<open>RuntimeError\<close>; and whenever a reindex-all run reaches \<^verbatim>\<open>run_sync\<close>, its set of
  records is not empty.
\<close>

theorem reindex_all_rejects_other_inputs:
  assumes "reindex_all a"
  shows "(\<not> (missing_keys h \<noteq> [] \<and> skip_on_missing_keys a)
            \<and> (given (files a) \<or> given (retry_errors a) \<or> given (changed_files a))
            \<longrightarrow> (\<exists>msg. main_entry h a = (Fatal (RuntimeError msg), [])))
       \<and> (missing_keys h = []
            \<and> \<not> (given (files a) \<or> given (retry_errors a) \<or> given (changed_files a))
            \<and> fst (compute_reindex_all_files h (errors_out a)) = Inr []
            \<longrightarrow> (\<exists>msg. fst (main_entry h a) = Fatal (RuntimeError msg)))
       \<and> (\<forall>recs wipe_first. fst (main_entry h a) = RunSync recs wipe_first
            \<longrightarrow> recs \<noteq> [] \<and> wipe_first
                \<and> \<not> (given (files a) \<or> given (retry_errors a) \<or> given (changed_files a)))"
proof -
  obtain r eff where c: "compute_reindex_all_files h (errors_out a) = (r, eff)"
    by (cases "compute_reindex_all_files h (errors_out a)")
  show ?thesis
    using assms c
    by (cases r) (auto simp: main_entry_def str_paths_def)
qed

theorem reindex_all_rejects_other_inputs_witness:
  "main_entry demo_host (no_args\<lparr>reindex_all := True, files := Some [''a.py'']\<rparr>)
     = (Fatal (RuntimeError
          ''--reindex-all cannot be combined with --files, --retry-errors, or changed_files''), [])
   \<and> fst (main_entry (demo_host\<lparr>git_ls_files := (\<lambda>sub. Inr [])\<rparr>) (no_args\<lparr>reindex_all := True\<rparr>))
     = Fatal (RuntimeError
         ''No tracked files found to index. Make sure the superproject is a git repo and submodules are checked out.'')"
proof -
  have 1: "\<exists>msg. main_entry demo_host (no_args\<lparr>reindex_all := True, files := Some [''a.py'']\<rparr>)
             = (Fatal (RuntimeError msg), [])"
    using reindex_all_rejects_other_inputs
            [of "no_args\<lparr>reindex_all := True, files := Some [''a.py'']\<rparr>" demo_host]
    by (simp add: no_args_def demo_host_def missing_keys_def given_def)
  have 2: "\<exists>msg. fst (main_entry (demo_host\<lparr>git_ls_files := (\<lambda>sub. Inr [])\<rparr>)
                         (no_args\<lparr>reindex_all := True\<rparr>)) = Fatal (RuntimeError msg)"
    using reindex_all_rejects_other_inputs
            [of "no_args\<lparr>reindex_all := True\<rparr>" "demo_host\<lparr>git_ls_files := (\<lambda>sub. Inr [])\<rparr>"]
    by (simp add: no_args_def demo_host_def missing_keys_def given_def
          compute_reindex_all_files_def submodule_files_def dedup_def)
  show ?thesis
    using 1 2 by (auto simp: main_entry_def no_args_def demo_host_def missing_keys_def given_def
          compute_reindex_all_files_def submodule_files_def dedup_def)
qed

text \<open>
  C10, as the claim states it, fails: a status that is one of \<^verbatim>\<open>a\<close>, \<^verbatim>\<open>m\<close>, \<^verbatim>\<open>d\<close> in
  lower case is not coerced to \<^verbatim>\<open>M\<close> but upper-cased, and a line whose status is a
  number is skipped although it is well-formed JSON with a \<^verbatim>\<open>file_path\<close>.
\<close>

theorem retry_line_status_counterexample:
  "retry_line (json_loads demo_host) ''line 1'' = [(''D'', PStr ''a.py'')]
   \<and> retry_line (json_loads demo_host) ''line 1'' \<noteq> [(''M'', PStr ''a.py'')]
   \<and> json_loads demo_host ''line 2''
        = Some (PDict [(''file_path'', PStr ''b.py''), (''status'', PNum 5)])
   \<and> retry_line (json_loads demo_host) ''line 2'' = []"
  by code_simp

text \<open>
  C10, amended. For a journal line that parses to an object with a true \<^verbatim>\<open>file_path\<close>:
  a status that is missing or false (null, empty) gives a Modify record; a non-empty
  string gives a record whose status is the string in upper case when that is \<^verbatim>\<open>A\<close>,
  \<^verbatim>\<open>M\<close> or \<^verbatim>\<open>D\<close>, and \<^verbatim>\<open>M\<close> otherwise; any other true status (a number, a list) makes
  the line be skipped. A line is also skipped, never fatal, when it does not parse, when
  it is not an object, and when its \<^verbatim>\<open>file_path\<close> is missing or false. A \<^verbatim>\<open>--files\<close>
  token with a colon whose prefix, stripped and in upper case, is not \<^verbatim>\<open>A\<close>, \<^verbatim>\<open>M\<close> or
  \<^verbatim>\<open>D\<close> ends the whole run with a \<^verbatim>\<open>RuntimeError\<close>.
\<close>

theorem retry_line_status:
  "(loads line = Some (PDict obj) \<and> truthy (dict_get obj ''file_path'')
      \<and> \<not> truthy (dict_get obj ''status'')
      \<longrightarrow> retry_line loads line = [(''M'', dict_get obj ''file_path'')])
   \<and> (loads line = Some (PDict obj) \<and> truthy (dict_get obj ''file_path'')
      \<and> dict_get obj ''status'' = PStr s \<and> s \<noteq> []
      \<longrightarrow> retry_line loads line
            = [(if upper s \<in> {''A'', ''M'', ''D''} then upper s else ''M'',
                dict_get obj ''file_path'')])
   \<and> (loads line = Some (PDict obj) \<and> truthy (dict_get obj ''status'')
      \<and> (\<forall>t. dict_get obj ''status'' \<noteq> PStr t)
      \<longrightarrow> retry_line loads line = [])
   \<and> (loads line = Some (PDict obj) \<and> \<not> truthy (dict_get obj ''file_path'')
      \<longrightarrow> retry_line loads line = [])
   \<and> (loads line = None \<or> (\<exists>v. loads line = Some v \<and> (\<forall>kvs. v \<noteq> PDict kvs))
      \<longrightarrow> retry_line loads line = [])
   \<and> (missing_keys h = [] \<and> \<not> reindex_all a \<and> files a = Some toks \<and> tok \<in> set toks
      \<and> CHR '':'' \<in> set tok
      \<and> upper (strip (takeWhile (\<lambda>c. c \<noteq> CHR '':'') tok)) \<notin> {''A'', ''M'', ''D''}
      \<longrightarrow> (\<exists>msg. main_entry h a = (Fatal (RuntimeError msg), [])))"
proof -
  have files: "\<exists>msg. main_entry h a = (Fatal (RuntimeError msg), [])"
    if k: "missing_keys h = []" "\<not> reindex_all a" "files a = Some toks"
      and t: "tok \<in> set toks" and "CHR '':'' \<in> set tok"
      and "upper (strip (takeWhile (\<lambda>c. c \<noteq> CHR '':'') tok)) \<notin> {''A'', ''M'', ''D''}"
  proof -
    have "\<exists>e. parse_token tok = Inl e"
      using that by (simp add: parse_token_def Let_def)
    then obtain msg where "parse_tokens toks = Inl (RuntimeError msg)"
      using parse_tokens_bad [OF t] by blast
    moreover have "given (files a)" using k t by (auto simp: given_def)
    ultimately show ?thesis using k by (simp add: main_entry_def)
  qed
  have other: "retry_line loads line = []"
    if "loads line = Some v" and "\<forall>kvs. v \<noteq> PDict kvs" for v
    using that by (cases v) (simp_all add: retry_line_def)
  have nonstr: "retry_line loads line = []"
    if "loads line = Some (PDict obj)" and "truthy (dict_get obj ''status'')"
      and "\<forall>t. dict_get obj ''status'' \<noteq> PStr t"
    using that by (cases "dict_get obj ''status''") (simp_all add: retry_line_def)
  have falsy: "retry_line loads line = [(''M'', dict_get obj ''file_path'')]"
    if "loads line = Some (PDict obj)" and "truthy (dict_get obj ''file_path'')"
      and "\<not> truthy (dict_get obj ''status'')"
    using that by (simp add: retry_line_def upper_def upper_char_def)
  have nofp: "retry_line loads line = []"
    if "loads line = Some (PDict obj)" and "\<not> truthy (dict_get obj ''file_path'')"
    using that
    by (cases "dict_get obj ''status''") (simp_all add: retry_line_def Let_def)
  have str: "retry_line loads line
               = [(if upper s \<in> {''A'', ''M'', ''D''} then upper s else ''M'',
                   dict_get obj ''file_path'')]"
    if "loads line = Some (PDict obj)" and "truthy (dict_get obj ''file_path'')"
      and "dict_get obj ''status'' = PStr s" and "s \<noteq> []"
    using that by (simp add: retry_line_def Let_def)
  show ?thesis
    apply (intro conjI impI)
    subgoal using falsy by blast
    subgoal using str by blast
    subgoal using nonstr by blast
    subgoal using nofp by blast
    subgoal using other by (auto simp: retry_line_def)
    subgoal using files by blast
    done
qed

theorem retry_line_status_witness:
  "retry_line (json_loads demo_host) ''line 3'' = [(''M'', PStr ''c.py'')]
   \<and> retry_line (json_loads demo_host) ''line 1'' = [(''D'', PStr ''a.py'')]
   \<and> retry_line (json_loads demo_host) ''line 4'' = []
   \<and> (\<exists>msg. main_entry demo_host (no_args\<lparr>files := Some [''a.py'', ''x:b.py'']\<rparr>)
               = (Fatal (RuntimeError msg), []))"
proof -
  have l3: "json_loads demo_host ''line 3''
              = Some (PDict [(''file_path'', PStr ''c.py''), (''status'', PStr ''R100'')])"
    and l1: "json_loads demo_host ''line 1''
              = Some (PDict [(''file_path'', PStr ''a.py''), (''status'', PStr ''d'')])"
    and l4: "json_loads demo_host ''line 4'' = None"
    by (simp_all add: demo_host_def)
  have u: "upper ''R100'' = ''R100''" "upper ''d'' = ''D''"
    by (simp_all add: upper_def upper_char_def)
  have 3: "retry_line (json_loads demo_host) ''line 3'' = [(''M'', PStr ''c.py'')]"
    using retry_line_status
            [of "json_loads demo_host" "''line 3''"
                "[(''file_path'', PStr ''c.py''), (''status'', PStr ''R100'')]" "''R100''"]
          l3 u
    by (simp add: dict_get_def)
  have 1: "retry_line (json_loads demo_host) ''line 1'' = [(''D'', PStr ''a.py'')]"
    using retry_line_status
            [of "json_loads demo_host" "''line 1''"
                "[(''file_path'', PStr ''a.py''), (''status'', PStr ''d'')]" "''d''"]
          l1 u
    by (simp add: dict_get_def)
  have 4: "retry_line (json_loads demo_host) ''line 4'' = []"
    using retry_line_status [of "json_loads demo_host" "''line 4''"] l4 by simp
  have p: "upper (strip (takeWhile (\<lambda>c. c \<noteq> CHR '':'') ''x:b.py'')) = ''X''"
    by (simp add: upper_def upper_char_def strip_def lstrip_def rstrip_def is_space_def)
  have f: "\<exists>msg. main_entry demo_host (no_args\<lparr>files := Some [''a.py'', ''x:b.py'']\<rparr>)
               = (Fatal (RuntimeError msg), [])"
    using retry_line_status
            [of _ _ _ _ demo_host "no_args\<lparr>files := Some [''a.py'', ''x:b.py'']\<rparr>"
                "[''a.py'', ''x:b.py'']" "''x:b.py''"] p
    by (simp add: no_args_def demo_host_def missing_keys_def given_def)
  show ?thesis using 1 3 4 f by blast
qed

end
